theory Spec2Isabelle
  imports Complex_Main "HOL-Library.AList"
begin

section \<open>Python values\<close>

text \<open>
  The extractor of \<^verbatim>\<open>src/instagram_extractor.py\<close> reads attributes of objects handed
  out by the client library and copies them into dictionaries. The attribute values it
  touches are scalars: \<^verbatim>\<open>None\<close>, booleans, integers, strings and datetimes (a datetime
  is represented by the text its \<^verbatim>\<open>isoformat()\<close> returns). Dictionaries keep insertion
  order, so a \<^verbatim>\<open>dict\<close> is an association list.
\<close>

datatype atom = ANone | ABool bool | AInt int | AStr string | ADatetime string

datatype pyval = Atom atom | PList "pyval list" | PDict "(string \<times> pyval) list"

type_synonym dict = "(string \<times> pyval) list"

text \<open>An object of the client library: its attributes, by name.\<close>

type_synonym pyobj = "string \<rightharpoonup> atom"

text \<open>
  Exceptions that derive from \<^verbatim>\<open>Exception\<close>, with their message. The three classes the
  \<^verbatim>\<open>login\<close> method names stand for themselves and their subclasses; \<open>OtherException\<close> is
  every other class. Asynchronous interrupts (\<^verbatim>\<open>KeyboardInterrupt\<close>), which are not
  \<^verbatim>\<open>Exception\<close>s, are outside this model.
\<close>

datatype exn_class =
  BadPassword | ReloginAttemptExceeded | ChallengeRequired
  | AttributeError | ValueError | OverflowError | TypeError | OtherException

datatype exn = Exn exn_class string

fun exn_str :: "exn \<Rightarrow> string" where
  "exn_str (Exn c m) = m"

subsection \<open>Truth value, \<^verbatim>\<open>str()\<close>, comparison\<close>

fun truthy :: "atom \<Rightarrow> bool" where
  "truthy ANone = False"
| "truthy (ABool b) = b"
| "truthy (AInt n) = (n \<noteq> 0)"
| "truthy (AStr s) = (s \<noteq> [])"
| "truthy (ADatetime s) = True"

fun truthy_val :: "pyval \<Rightarrow> bool" where
  "truthy_val (Atom a) = truthy a"
| "truthy_val (PList xs) = (xs \<noteq> [])"
| "truthy_val (PDict kvs) = (kvs \<noteq> [])"

definition digit_char :: "nat \<Rightarrow> char" where
  "digit_char n = ''0123456789'' ! n"

fun str_nat :: "nat \<Rightarrow> string" where
  "str_nat n = (if n < 10 then [digit_char n] else str_nat (n div 10) @ [digit_char (n mod 10)])"

definition str_int :: "int \<Rightarrow> string" where
  "str_int i = (if i < 0 then CHR ''-'' # str_nat (nat (- i)) else str_nat (nat i))"

text \<open>\<^verbatim>\<open>str(x)\<close>; for a datetime it is the ISO text with a space for the \<^verbatim>\<open>T\<close>.\<close>

fun py_str :: "atom \<Rightarrow> string" where
  "py_str ANone = ''None''"
| "py_str (ABool b) = (if b then ''True'' else ''False'')"
| "py_str (AInt n) = str_int n"
| "py_str (AStr s) = s"
| "py_str (ADatetime s) = map (\<lambda>c. if c = CHR ''T'' then CHR '' '' else c) s"

text \<open>\<^verbatim>\<open>x == n\<close> for an integer literal \<open>n\<close>: a \<^verbatim>\<open>bool\<close> compares as 0 or 1.\<close>

fun py_eq_int :: "atom \<Rightarrow> int \<Rightarrow> bool" where
  "py_eq_int (AInt k) n = (k = n)"
| "py_eq_int (ABool b) n = ((if b then 1 else 0) = n)"
| "py_eq_int _ n = False"

text \<open>\<^verbatim>\<open>s.lower()\<close> on the ASCII letters.\<close>

definition lower_char :: "char \<Rightarrow> char" where
  "lower_char c =
     (case map_of (zip ''ABCDEFGHIJKLMNOPQRSTUVWXYZ'' ''abcdefghijklmnopqrstuvwxyz'') c of
        None \<Rightarrow> c | Some l \<Rightarrow> l)"

definition py_lower :: "string \<Rightarrow> string" where
  "py_lower s = map lower_char s"

subsection \<open>Attribute access\<close>

definition getattr :: "pyobj \<Rightarrow> string \<Rightarrow> exn + atom" where
  "getattr obj name = (case obj name of None \<Rightarrow> Inl (Exn AttributeError name) | Some v \<Rightarrow> Inr v)"

definition hasattr :: "pyobj \<Rightarrow> string \<Rightarrow> bool" where
  "hasattr obj name = (obj name \<noteq> None)"

definition getattr_default :: "pyobj \<Rightarrow> string \<Rightarrow> atom \<Rightarrow> atom" where
  "getattr_default obj name d = (case obj name of None \<Rightarrow> d | Some v \<Rightarrow> v)"

text \<open>\<^verbatim>\<open>x.isoformat()\<close>: only a datetime has the method.\<close>

fun isoformat :: "atom \<Rightarrow> exn + atom" where
  "isoformat (ADatetime s) = Inr (AStr s)"
| "isoformat _ = Inl (Exn AttributeError ''isoformat'')"

definition exn_bind :: "exn + 'a \<Rightarrow> ('a \<Rightarrow> exn + 'b) \<Rightarrow> exn + 'b" where
  "exn_bind r f = (case r of Inl e \<Rightarrow> Inl e | Inr x \<Rightarrow> f x)"

section \<open>Effects\<close>

text \<open>
  A path is the sequence of operands joined by \<^verbatim>\<open>pathlib\<close>'s \<^verbatim>\<open>/\<close>:
  \<^verbatim>\<open>output_dir / 'media' / filename\<close> is \<open>[output_dir, ''media'', filename]\<close>.
\<close>

type_synonym path = "string list"

datatype log_level = Info | Warning | Error

text \<open>
  What a run does to the outside, in order. Each call of the client library, of the
  network and of the file system is recorded with whether it succeeded. \<open>EvEnter\<close> and
  \<open>EvDownloadMedia\<close> are markers: a method of the extractor was entered with these
  arguments, and \<^verbatim>\<open>download_media(url, filename)\<close> returned this boolean.
\<close>

datatype event =
    EvEnter string "string list"
  | EvLog log_level string
  | EvPrint string
  | EvInput string
  | EvSleep rat
  | EvNow string
  | EvPathExists string bool
  | EvLoadSettings string bool
  | EvLogin atom atom bool
  | EvDumpSettings string bool
  | EvUserInfoByUsername string bool
  | EvUserIdFromUsername string bool
  | EvUserMedias atom int bool
  | EvUserFollowers atom int bool
  | EvUserFollowing atom int bool
  | EvHttpGet string bool
  | EvOpenWrite path bool
  | EvWriteChunk path string bool
  | EvDownloadMedia string string bool
  | EvJsonDump path pyval bool
  | EvToCsv path pyval bool

text \<open>
  The outside world has a hidden state \<open>'w\<close>; every external call reads it and may change
  it, so that the same call can succeed once and fail the next time. The record holds
  what the client library (\<^verbatim>\<open>instagrapi.Client\<close>), \<^verbatim>\<open>requests\<close>, \<^verbatim>\<open>pandas\<close>, \<^verbatim>\<open>json\<close> and
  the operating system answer. A body served by \<open>http_get\<close> is the finite list of its
  chunks, each either read or failing.
\<close>

record 'w platform =
  os_path_exists :: "string \<Rightarrow> 'w \<Rightarrow> bool \<times> 'w"
  load_settings :: "string \<Rightarrow> 'w \<Rightarrow> (exn + unit) \<times> 'w"
  client_login :: "atom \<Rightarrow> atom \<Rightarrow> 'w \<Rightarrow> (exn + atom) \<times> 'w"
  dump_settings :: "string \<Rightarrow> 'w \<Rightarrow> (exn + unit) \<times> 'w"
  user_info_by_username :: "string \<Rightarrow> 'w \<Rightarrow> (exn + pyobj) \<times> 'w"
  user_id_from_username :: "string \<Rightarrow> 'w \<Rightarrow> (exn + atom) \<times> 'w"
  user_medias :: "atom \<Rightarrow> int \<Rightarrow> 'w \<Rightarrow> (exn + pyobj list) \<times> 'w"
  user_followers :: "atom \<Rightarrow> int \<Rightarrow> 'w \<Rightarrow> (exn + (atom \<times> pyobj) list) \<times> 'w"
  user_following :: "atom \<Rightarrow> int \<Rightarrow> 'w \<Rightarrow> (exn + (atom \<times> pyobj) list) \<times> 'w"
  datetime_now :: "'w \<Rightarrow> string \<times> 'w"
  http_get :: "string \<Rightarrow> 'w \<Rightarrow> (exn + (exn + string) list) \<times> 'w"
  open_write :: "path \<Rightarrow> 'w \<Rightarrow> (exn + unit) \<times> 'w"
  write_chunk :: "path \<Rightarrow> string \<Rightarrow> 'w \<Rightarrow> (exn + unit) \<times> 'w"
  json_dump :: "path \<Rightarrow> pyval \<Rightarrow> 'w \<Rightarrow> (exn + unit) \<times> 'w"
  to_csv :: "path \<Rightarrow> pyval \<Rightarrow> 'w \<Rightarrow> (exn + unit) \<times> 'w"
  read_input :: "string \<Rightarrow> 'w \<Rightarrow> (exn + string) \<times> 'w"

text \<open>
  A computation: from the world to a result or a raised exception, the events it
  caused, and the world afterwards.
\<close>

type_synonym ('w, 'a) io = "'w \<Rightarrow> (exn + 'a) \<times> event list \<times> 'w"

definition io_return :: "'a \<Rightarrow> ('w, 'a) io" where
  "io_return x w = (Inr x, [], w)"

definition io_raise :: "exn \<Rightarrow> ('w, 'a) io" where
  "io_raise e w = (Inl e, [], w)"

definition io_lift :: "exn + 'a \<Rightarrow> ('w, 'a) io" where
  "io_lift r w = (r, [], w)"

definition emit :: "event \<Rightarrow> ('w, unit) io" where
  "emit ev w = (Inr (), [ev], w)"

definition io_bind :: "('w, 'a) io \<Rightarrow> ('a \<Rightarrow> ('w, 'b) io) \<Rightarrow> ('w, 'b) io" where
  "io_bind m f w =
     (case m w of
        (Inl e, evs, w') \<Rightarrow> (Inl e, evs, w')
      | (Inr x, evs, w') \<Rightarrow> (case f x w' of (r, evs', w'') \<Rightarrow> (r, evs @ evs', w'')))"

text \<open>\<^verbatim>\<open>try: m except Exception as e: h e\<close>\<close>

definition io_try :: "('w, 'a) io \<Rightarrow> (exn \<Rightarrow> ('w, 'a) io) \<Rightarrow> ('w, 'a) io" where
  "io_try m h w =
     (case m w of
        (Inl e, evs, w') \<Rightarrow> (case h e w' of (r, evs', w'') \<Rightarrow> (r, evs @ evs', w''))
      | (Inr x, evs, w') \<Rightarrow> (Inr x, evs, w'))"

definition succeeded :: "exn + 'a \<Rightarrow> bool" where
  "succeeded r = (case r of Inl e \<Rightarrow> False | Inr x \<Rightarrow> True)"

text \<open>An external call, recorded with its outcome.\<close>

definition ext_call :: "('w \<Rightarrow> (exn + 'a) \<times> 'w) \<Rightarrow> (bool \<Rightarrow> event) \<Rightarrow> ('w, 'a) io" where
  "ext_call f ev w = (case f w of (r, w') \<Rightarrow> (r, [ev (succeeded r)], w'))"

definition result_of :: "(exn + 'a) \<times> event list \<times> 'w \<Rightarrow> exn + 'a" where
  "result_of t = fst t"

definition events_of :: "(exn + 'a) \<times> event list \<times> 'w \<Rightarrow> event list" where
  "events_of t = fst (snd t)"

definition world_of :: "(exn + 'a) \<times> event list \<times> 'w \<Rightarrow> 'w" where
  "world_of t = snd (snd t)"

section \<open>The extractor object\<close>

text \<open>
  The fields \<^verbatim>\<open>__init__\<close> sets from the environment, and the environment itself, which
  \<^verbatim>\<open>get_user_posts\<close> reads again for its two toggles. \<^verbatim>\<open>os.getenv\<close> gives \<^verbatim>\<open>None\<close> for an
  unset credential, hence the atoms.
\<close>

record extractor =
  self_username :: atom
  self_password :: atom
  session_file :: string
  output_dir :: string
  request_delay :: int
  os_environ :: "string \<rightharpoonup> string"

definition getenv :: "extractor \<Rightarrow> string \<Rightarrow> string \<Rightarrow> string" where
  "getenv self name dflt = (case os_environ self name of None \<Rightarrow> dflt | Some v \<Rightarrow> v)"

definition logger :: "log_level \<Rightarrow> string \<Rightarrow> ('w, unit) io" where
  "logger lvl msg = emit (EvLog lvl msg)"

text \<open>
  \<^verbatim>\<open>time.sleep(d)\<close> raises \<^verbatim>\<open>ValueError\<close> for a negative duration and \<^verbatim>\<open>OverflowError\<close>
  for one that does not fit the interpreter's clock, a signed 64-bit count of
  nanoseconds: \<^verbatim>\<open>time.sleep(9223372036)\<close> sleeps, \<^verbatim>\<open>time.sleep(9223372037)\<close> raises.
  Durations are exact rationals: \<^verbatim>\<open>request_delay / 2\<close> is half the integer. (For an
  integer too large for a float the division itself raises \<^verbatim>\<open>OverflowError\<close>; such a
  delay is beyond the clock as well.)
\<close>

definition time_sleep :: "rat \<Rightarrow> ('w, unit) io" where
  "time_sleep d =
     (if d < 0 then io_raise (Exn ValueError ''sleep length must be non-negative'')
      else if 9223372036854775807 < d * 1000000000
      then io_raise (Exn OverflowError ''timestamp too large to convert to C _PyTime_t'')
      else emit (EvSleep d))"

text \<open>The durations \<^verbatim>\<open>time.sleep\<close> accepts.\<close>

definition can_sleep :: "rat \<Rightarrow> bool" where
  "can_sleep d = (0 \<le> d \<and> d * 1000000000 \<le> 9223372036854775807)"

section \<open>\<^verbatim>\<open>login\<close>\<close>

text \<open>\<^verbatim>\<open>os.path.exists\<close> answers and does not raise.\<close>

definition path_exists_call :: "'w platform \<Rightarrow> string \<Rightarrow> ('w, bool) io" where
  "path_exists_call P f w = (case os_path_exists P f w of (b, w') \<Rightarrow> (Inr b, [EvPathExists f b], w'))"


text \<open>
  The first \<^verbatim>\<open>try\<close> block: \<open>Some True\<close> when it returns from the method, \<open>None\<close> when
  control falls out of its end (no session file).
\<close>

definition login_reuse :: "'w platform \<Rightarrow> extractor \<Rightarrow> ('w, bool option) io" where
  "login_reuse P self =
     io_bind (path_exists_call P (session_file self)) (\<lambda>ex.
       if ex then
         io_bind (ext_call (load_settings P (session_file self)) (EvLoadSettings (session_file self))) (\<lambda>_.
         io_bind (ext_call (client_login P (self_username self) (self_password self))
                    (EvLogin (self_username self) (self_password self))) (\<lambda>_.
         io_bind (logger Info ''Logged in using existing session'') (\<lambda>_.
         io_return (Some True))))
       else io_return None)"

text \<open>The second \<^verbatim>\<open>try\<close> block.\<close>

definition login_fresh :: "'w platform \<Rightarrow> extractor \<Rightarrow> ('w, bool) io" where
  "login_fresh P self =
     io_bind (ext_call (client_login P (self_username self) (self_password self))
                (EvLogin (self_username self) (self_password self))) (\<lambda>_.
     io_bind (ext_call (dump_settings P (session_file self)) (EvDumpSettings (session_file self))) (\<lambda>_.
     io_bind (logger Info ''Successfully logged in with fresh session'') (\<lambda>_.
     io_return True)))"

fun login_handler :: "exn \<Rightarrow> ('w, bool) io" where
  "login_handler (Exn BadPassword m) =
     io_bind (logger Error ''Invalid username or password'') (\<lambda>_. io_return False)"
| "login_handler (Exn ReloginAttemptExceeded m) =
     io_bind (logger Error ''Too many login attempts'') (\<lambda>_. io_return False)"
| "login_handler (Exn ChallengeRequired m) =
     io_bind (logger Error (''Challenge required: '' @ m)) (\<lambda>_. io_return False)"
| "login_handler (Exn c m) =
     io_bind (logger Error (''Login failed: '' @ m)) (\<lambda>_. io_return False)"

definition login :: "'w platform \<Rightarrow> extractor \<Rightarrow> ('w, bool) io" where
  "login P self =
     io_bind (emit (EvEnter ''login'' [])) (\<lambda>_.
     io_bind (io_try (login_reuse P self)
                (\<lambda>e. io_bind (logger Warning (''Failed to load session: '' @ exn_str e)) (\<lambda>_. io_return None))) (\<lambda>r.
       case r of
         Some b \<Rightarrow> io_return b
       | None \<Rightarrow> io_try (login_fresh P self) login_handler))"

section \<open>\<^verbatim>\<open>get_user_info\<close>\<close>

text \<open>The entries of \<^verbatim>\<open>user_data\<close> that are read from the profile object, in order.\<close>

definition user_fields :: "pyobj \<Rightarrow> exn + dict" where
  "user_fields user_info =
     exn_bind (getattr user_info ''pk'') (\<lambda>pk.
     exn_bind (getattr user_info ''username'') (\<lambda>uname.
     exn_bind (getattr user_info ''full_name'') (\<lambda>full_name.
     exn_bind (getattr user_info ''biography'') (\<lambda>biography.
     exn_bind (getattr user_info ''external_url'') (\<lambda>external_url.
     exn_bind (getattr user_info ''follower_count'') (\<lambda>follower_count.
     exn_bind (getattr user_info ''following_count'') (\<lambda>following_count.
     exn_bind (getattr user_info ''media_count'') (\<lambda>media_count.
     exn_bind (getattr user_info ''is_private'') (\<lambda>is_private.
     exn_bind (getattr user_info ''is_verified'') (\<lambda>is_verified.
     exn_bind (getattr user_info ''profile_pic_url'') (\<lambda>profile_pic_url.
     Inr [(''pk'', Atom (AStr (py_str pk))),
          (''username'', Atom uname),
          (''full_name'', Atom full_name),
          (''biography'', Atom biography),
          (''external_url'', Atom external_url),
          (''follower_count'', Atom follower_count),
          (''following_count'', Atom following_count),
          (''media_count'', Atom media_count),
          (''is_private'', Atom is_private),
          (''is_verified'', Atom is_verified),
          (''profile_pic_url'', Atom profile_pic_url)])))))))))))"

definition now_call :: "'w platform \<Rightarrow> ('w, string) io" where
  "now_call P w = (case datetime_now P w of (t, w') \<Rightarrow> (Inr t, [EvNow t], w'))"

definition get_user_info_body :: "'w platform \<Rightarrow> extractor \<Rightarrow> string \<Rightarrow> ('w, dict option) io" where
  "get_user_info_body P self username =
     io_bind (time_sleep (of_int (request_delay self))) (\<lambda>_.
     io_bind (ext_call (user_info_by_username P username) (EvUserInfoByUsername username)) (\<lambda>user_info.
     io_bind (io_lift (user_fields user_info)) (\<lambda>fields.
     io_bind (now_call P) (\<lambda>t.
     io_bind (logger Info (''Retrieved user info for '' @ username)) (\<lambda>_.
     io_return (Some (fields @ [(''extracted_at'', Atom (AStr t))])))))))"

definition get_user_info :: "'w platform \<Rightarrow> extractor \<Rightarrow> string \<Rightarrow> ('w, dict option) io" where
  "get_user_info P self username =
     io_bind (emit (EvEnter ''get_user_info'' [username])) (\<lambda>_.
     io_try (get_user_info_body P self username)
       (\<lambda>e. io_bind (logger Error (''Failed to get user info for '' @ username @ '': '' @ exn_str e)) (\<lambda>_.
             io_return None)))"

section \<open>\<^verbatim>\<open>download_media\<close>\<close>

text \<open>The loop over \<^verbatim>\<open>response.iter_content\<close>: each chunk read is written to the file.\<close>

fun write_chunks :: "'w platform \<Rightarrow> path \<Rightarrow> (exn + string) list \<Rightarrow> ('w, unit) io" where
  "write_chunks P filepath [] w = (Inr (), [], w)"
| "write_chunks P filepath (Inl e # cs) w = (Inl e, [], w)"
| "write_chunks P filepath (Inr c # cs) w =
     (case ext_call (write_chunk P filepath c) (EvWriteChunk filepath c) w of
        (Inl e, evs, w') \<Rightarrow> (Inl e, evs, w')
      | (Inr u, evs, w') \<Rightarrow>
          (case write_chunks P filepath cs w' of (r, evs', w'') \<Rightarrow> (r, evs @ evs', w'')))"

definition download_media_body :: "'w platform \<Rightarrow> extractor \<Rightarrow> string \<Rightarrow> string \<Rightarrow> ('w, bool) io" where
  "download_media_body P self media_url filename =
     io_bind (ext_call (http_get P media_url) (EvHttpGet media_url)) (\<lambda>chunks.
     io_bind (ext_call (open_write P [output_dir self, ''media'', filename])
                (EvOpenWrite [output_dir self, ''media'', filename])) (\<lambda>_.
     io_bind (write_chunks P [output_dir self, ''media'', filename] chunks) (\<lambda>_.
     io_return True)))"

definition download_media :: "'w platform \<Rightarrow> extractor \<Rightarrow> string \<Rightarrow> string \<Rightarrow> ('w, bool) io" where
  "download_media P self media_url filename =
     io_bind (io_try (download_media_body P self media_url filename)
                (\<lambda>e. io_bind (logger Error (''Failed to download media '' @ filename @ '': '' @ exn_str e)) (\<lambda>_.
                      io_return False))) (\<lambda>b.
     io_bind (emit (EvDownloadMedia media_url filename b)) (\<lambda>_.
     io_return b))"

section \<open>\<^verbatim>\<open>get_user_posts\<close>\<close>

text \<open>The dictionary \<^verbatim>\<open>post_data\<close> as first built, entry by entry.\<close>

definition post_data_of :: "pyobj \<Rightarrow> exn + dict" where
  "post_data_of media =
     exn_bind (getattr media ''id'') (\<lambda>mid.
     exn_bind (getattr media ''code'') (\<lambda>code.
     exn_bind (getattr media ''taken_at'') (\<lambda>taken_at.
     exn_bind (if truthy taken_at then isoformat taken_at else Inr ANone) (\<lambda>taken.
     exn_bind (getattr media ''media_type'') (\<lambda>media_type.
     exn_bind (if hasattr media ''caption_text'' then getattr media ''caption_text''
               else Inr (AStr [])) (\<lambda>caption.
     exn_bind (getattr media ''like_count'') (\<lambda>like_count.
     exn_bind (getattr media ''comment_count'') (\<lambda>comment_count.
     exn_bind (getattr media ''thumbnail_url'') (\<lambda>thumbnail_url.
     Inr [(''id'', Atom (AStr (py_str mid))),
          (''code'', Atom code),
          (''taken_at'', Atom taken),
          (''media_type'', Atom (AStr (py_str media_type))),
          (''caption'', Atom caption),
          (''like_count'', Atom like_count),
          (''comment_count'', Atom comment_count),
          (''play_count'', Atom (getattr_default media ''play_count'' (AInt 0))),
          (''thumbnail_url'', Atom (AStr (if truthy thumbnail_url then py_str thumbnail_url else []))),
          (''resources'', PList [])])))))))))"

definition toggle_on :: "extractor \<Rightarrow> string \<Rightarrow> bool" where
  "toggle_on self name = (py_lower (getenv self name ''true'') = ''true'')"

text \<open>
  The attributes the download steps read again. They were read while \<^verbatim>\<open>post_data\<close> was
  built, so they are present when these are evaluated.
\<close>

definition attr_of :: "pyobj \<Rightarrow> string \<Rightarrow> atom" where
  "attr_of obj name = getattr_default obj name ANone"

text \<open>\<^verbatim>\<open>filename = f"{username}_{media.id}.{ext}"\<close>\<close>

definition media_filename :: "string \<Rightarrow> pyobj \<Rightarrow> string \<Rightarrow> string" where
  "media_filename username media ext = username @ ''_'' @ py_str (attr_of media ''id'') @ ext"

text \<open>\<^verbatim>\<open>post_data['local_file'] = f"media/{filename}"\<close>\<close>

definition set_local_file :: "string \<Rightarrow> dict \<Rightarrow> dict" where
  "set_local_file filename post_data =
     AList.update ''local_file'' (Atom (AStr (''media/'' @ filename))) post_data"

definition photo_step :: "'w platform \<Rightarrow> extractor \<Rightarrow> string \<Rightarrow> pyobj \<Rightarrow> dict \<Rightarrow> ('w, dict) io" where
  "photo_step P self username media post_data =
     (if toggle_on self ''DOWNLOAD_PHOTOS'' \<and> py_eq_int (attr_of media ''media_type'') 1 then
        io_bind (download_media P self (py_str (attr_of media ''thumbnail_url''))
                   (media_filename username media ''.jpg'')) (\<lambda>ok.
        io_return (if ok then set_local_file (media_filename username media ''.jpg'') post_data
                   else post_data))
      else io_return post_data)"

definition video_step :: "'w platform \<Rightarrow> extractor \<Rightarrow> string \<Rightarrow> pyobj \<Rightarrow> dict \<Rightarrow> ('w, dict) io" where
  "video_step P self username media post_data =
     (if toggle_on self ''DOWNLOAD_VIDEOS'' \<and> py_eq_int (attr_of media ''media_type'') 2
         \<and> hasattr media ''video_url'' then
        io_bind (download_media P self (py_str (attr_of media ''video_url''))
                   (media_filename username media ''.mp4'')) (\<lambda>ok.
        io_return (if ok then set_local_file (media_filename username media ''.mp4'') post_data
                   else post_data))
      else io_return post_data)"

text \<open>One turn of the loop over \<^verbatim>\<open>medias\<close>: the dictionary that is appended.\<close>

definition process_media :: "'w platform \<Rightarrow> extractor \<Rightarrow> string \<Rightarrow> pyobj \<Rightarrow> ('w, dict) io" where
  "process_media P self username media =
     io_bind (time_sleep (of_int (request_delay self))) (\<lambda>_.
     io_bind (io_lift (post_data_of media)) (\<lambda>post_data.
     io_bind (photo_step P self username media post_data) (\<lambda>post_data1.
     video_step P self username media post_data1)))"

fun posts_loop :: "'w platform \<Rightarrow> extractor \<Rightarrow> string \<Rightarrow> pyobj list \<Rightarrow> dict list \<Rightarrow> ('w, dict list) io" where
  "posts_loop P self username [] posts_data w = (Inr posts_data, [], w)"
| "posts_loop P self username (media # medias) posts_data w =
     (case process_media P self username media w of
        (Inl e, evs, w') \<Rightarrow> (Inl e, evs, w')
      | (Inr post_data, evs, w') \<Rightarrow>
          (case posts_loop P self username medias (posts_data @ [post_data]) w' of
             (r, evs', w'') \<Rightarrow> (r, evs @ evs', w'')))"

definition get_user_posts_body :: "'w platform \<Rightarrow> extractor \<Rightarrow> string \<Rightarrow> int \<Rightarrow> ('w, dict list) io" where
  "get_user_posts_body P self username limit =
     io_bind (ext_call (user_id_from_username P username) (EvUserIdFromUsername username)) (\<lambda>user_id.
     io_bind (ext_call (user_medias P user_id limit) (EvUserMedias user_id limit)) (\<lambda>medias.
     io_bind (posts_loop P self username medias []) (\<lambda>posts_data.
     io_bind (logger Info (''Retrieved '' @ str_nat (length posts_data) @ '' posts for '' @ username)) (\<lambda>_.
     io_return posts_data))))"

text \<open>The \<^verbatim>\<open>limit\<close> parameter is optional; \<open>None\<close> is a call that leaves it out.\<close>

definition get_user_posts :: "'w platform \<Rightarrow> extractor \<Rightarrow> string \<Rightarrow> int option \<Rightarrow> ('w, dict list) io" where
  "get_user_posts P self username limit =
     io_bind (emit (EvEnter ''get_user_posts'' [username])) (\<lambda>_.
     io_try (get_user_posts_body P self username (case limit of None \<Rightarrow> 100 | Some l \<Rightarrow> l))
       (\<lambda>e. io_bind (logger Error (''Failed to get posts for '' @ username @ '': '' @ exn_str e)) (\<lambda>_.
             io_return [])))"

section \<open>\<^verbatim>\<open>get_followers\<close> and \<^verbatim>\<open>get_following\<close>\<close>

text \<open>
  The dictionary built for one related account. \<^verbatim>\<open>get_followers\<close> builds it as
  \<^verbatim>\<open>follower_data\<close> and \<^verbatim>\<open>get_following\<close> as \<^verbatim>\<open>following_user_data\<close>, entry for entry the
  same.
\<close>

definition follower_data_of :: "pyobj \<Rightarrow> exn + dict" where
  "follower_data_of info =
     exn_bind (getattr info ''pk'') (\<lambda>pk.
     exn_bind (getattr info ''username'') (\<lambda>uname.
     exn_bind (getattr info ''full_name'') (\<lambda>full_name.
     exn_bind (getattr info ''is_private'') (\<lambda>is_private.
     exn_bind (getattr info ''is_verified'') (\<lambda>is_verified.
     exn_bind (getattr info ''profile_pic_url'') (\<lambda>profile_pic_url.
     Inr [(''pk'', Atom (AStr (py_str pk))),
          (''username'', Atom uname),
          (''full_name'', Atom full_name),
          (''is_private'', Atom is_private),
          (''is_verified'', Atom is_verified),
          (''follower_count'', Atom (getattr_default info ''follower_count'' (AInt 0))),
          (''following_count'', Atom (getattr_default info ''following_count'' (AInt 0))),
          (''profile_pic_url'', Atom (AStr (if truthy profile_pic_url then py_str profile_pic_url else [])))]))))))"

text \<open>The loop over \<^verbatim>\<open>.items()\<close> of the mapping the client returned, in its order.\<close>

fun relations_loop :: "extractor \<Rightarrow> (atom \<times> pyobj) list \<Rightarrow> dict list \<Rightarrow> ('w, dict list) io" where
  "relations_loop self [] acc w = (Inr acc, [], w)"
| "relations_loop self ((ident, info) # items) acc w =
     (case io_bind (time_sleep (of_int (request_delay self) / 2)) (\<lambda>_.
             io_lift (follower_data_of info)) w of
        (Inl e, evs, w') \<Rightarrow> (Inl e, evs, w')
      | (Inr entry, evs, w') \<Rightarrow>
          (case relations_loop self items (acc @ [entry]) w' of
             (r, evs', w'') \<Rightarrow> (r, evs @ evs', w'')))"

definition get_followers_body :: "'w platform \<Rightarrow> extractor \<Rightarrow> string \<Rightarrow> int \<Rightarrow> ('w, dict list) io" where
  "get_followers_body P self username limit =
     io_bind (ext_call (user_id_from_username P username) (EvUserIdFromUsername username)) (\<lambda>user_id.
     io_bind (ext_call (user_followers P user_id limit) (EvUserFollowers user_id limit)) (\<lambda>followers.
     io_bind (relations_loop self followers []) (\<lambda>followers_data.
     io_bind (logger Info (''Retrieved '' @ str_nat (length followers_data) @ '' followers for '' @ username)) (\<lambda>_.
     io_return followers_data))))"

definition get_followers :: "'w platform \<Rightarrow> extractor \<Rightarrow> string \<Rightarrow> int option \<Rightarrow> ('w, dict list) io" where
  "get_followers P self username limit =
     io_bind (emit (EvEnter ''get_followers'' [username])) (\<lambda>_.
     io_try (get_followers_body P self username (case limit of None \<Rightarrow> 1000 | Some l \<Rightarrow> l))
       (\<lambda>e. io_bind (logger Error (''Failed to get followers for '' @ username @ '': '' @ exn_str e)) (\<lambda>_.
             io_return [])))"

definition get_following_body :: "'w platform \<Rightarrow> extractor \<Rightarrow> string \<Rightarrow> int \<Rightarrow> ('w, dict list) io" where
  "get_following_body P self username limit =
     io_bind (ext_call (user_id_from_username P username) (EvUserIdFromUsername username)) (\<lambda>user_id.
     io_bind (ext_call (user_following P user_id limit) (EvUserFollowing user_id limit)) (\<lambda>following.
     io_bind (relations_loop self following []) (\<lambda>following_data.
     io_bind (logger Info (''Retrieved '' @ str_nat (length following_data) @ '' following for '' @ username)) (\<lambda>_.
     io_return following_data))))"

definition get_following :: "'w platform \<Rightarrow> extractor \<Rightarrow> string \<Rightarrow> int option \<Rightarrow> ('w, dict list) io" where
  "get_following P self username limit =
     io_bind (emit (EvEnter ''get_following'' [username])) (\<lambda>_.
     io_try (get_following_body P self username (case limit of None \<Rightarrow> 1000 | Some l \<Rightarrow> l))
       (\<lambda>e. io_bind (logger Error (''Failed to get following for '' @ username @ '': '' @ exn_str e)) (\<lambda>_.
             io_return [])))"

section \<open>\<^verbatim>\<open>extract_user_data\<close>\<close>

text \<open>The text of a path: its operands, joined by \<^verbatim>\<open>/\<close>.\<close>

fun path_str :: "path \<Rightarrow> string" where
  "path_str [] = []"
| "path_str [x] = x"
| "path_str (x # y # ys) = x @ ''/'' @ path_str (y # ys)"

definition json_path :: "extractor \<Rightarrow> string \<Rightarrow> path" where
  "json_path self username = [output_dir self, ''json_data'', username @ ''_data.json'']"

text \<open>
  The empty dictionary is the result when the profile is absent. Opening the output file
  and \<^verbatim>\<open>json.dump\<close> are one external call; an exception there is not caught.
\<close>

definition extracted_data_of :: "dict \<Rightarrow> dict list \<Rightarrow> dict list \<Rightarrow> dict list \<Rightarrow> string \<Rightarrow> dict" where
  "extracted_data_of user_info posts followers following t =
     [(''user_info'', PDict user_info),
      (''posts'', PList (map PDict posts)),
      (''followers'', PList (map PDict followers)),
      (''following'', PList (map PDict following)),
      (''extraction_timestamp'', Atom (AStr t))]"

definition extract_user_data :: "'w platform \<Rightarrow> extractor \<Rightarrow> string \<Rightarrow> ('w, dict) io" where
  "extract_user_data P self username =
     io_bind (emit (EvEnter ''extract_user_data'' [username])) (\<lambda>_.
     io_bind (logger Info (''Starting data extraction for '' @ username)) (\<lambda>_.
     io_bind (get_user_info P self username) (\<lambda>user_info.
       case user_info of
         None \<Rightarrow> io_return []
       | Some info \<Rightarrow>
           if info = [] then io_return []
           else
             io_bind (get_user_posts P self username None) (\<lambda>posts.
             io_bind (get_followers P self username None) (\<lambda>followers.
             io_bind (get_following P self username None) (\<lambda>following.
             io_bind (now_call P) (\<lambda>t.
             io_bind (ext_call (json_dump P (json_path self username)
                                  (PDict (extracted_data_of info posts followers following t)))
                        (EvJsonDump (json_path self username)
                           (PDict (extracted_data_of info posts followers following t)))) (\<lambda>_.
             io_bind (logger Info (''Data extraction completed for '' @ username @ ''. Saved to ''
                        @ path_str (json_path self username))) (\<lambda>_.
             io_return (extracted_data_of info posts followers following t))))))))))"

section \<open>\<^verbatim>\<open>generate_csv_reports\<close>\<close>

definition csv_path :: "extractor \<Rightarrow> string \<Rightarrow> string \<Rightarrow> path" where
  "csv_path self username category = [output_dir self, username @ ''_'' @ category @ ''.csv'']"

text \<open>
  \<^verbatim>\<open>if data.get(category): pd.DataFrame(data[category]).to_csv(path, index=False)\<close>;
  building the frame and writing it are one external call.
\<close>

definition csv_step :: "'w platform \<Rightarrow> extractor \<Rightarrow> string \<Rightarrow> dict \<Rightarrow> string \<Rightarrow> ('w, unit) io" where
  "csv_step P self username data category =
     (case map_of data category of
        None \<Rightarrow> io_return ()
      | Some v \<Rightarrow>
          if truthy_val v then
            ext_call (to_csv P (csv_path self username category) v)
              (EvToCsv (csv_path self username category) v)
          else io_return ())"

definition generate_csv_reports_body :: "'w platform \<Rightarrow> extractor \<Rightarrow> string \<Rightarrow> dict \<Rightarrow> ('w, unit) io" where
  "generate_csv_reports_body P self username data =
     io_bind (csv_step P self username data ''posts'') (\<lambda>_.
     io_bind (csv_step P self username data ''followers'') (\<lambda>_.
     io_bind (csv_step P self username data ''following'') (\<lambda>_.
     logger Info (''CSV reports generated for '' @ username))))"

definition generate_csv_reports :: "'w platform \<Rightarrow> extractor \<Rightarrow> string \<Rightarrow> dict \<Rightarrow> ('w, unit) io" where
  "generate_csv_reports P self username data =
     io_bind (emit (EvEnter ''generate_csv_reports'' [username])) (\<lambda>_.
     io_try (generate_csv_reports_body P self username data)
       (\<lambda>e. logger Error (''Failed to generate CSV reports: '' @ exn_str e)))"

section \<open>\<^verbatim>\<open>main\<close>\<close>







section \<open>Kinds of events\<close>

text \<open>
  The events that write a file of the run's output or the session file. A log record
  (\<open>EvLog\<close>) goes to the logging handlers and is not counted here.
\<close>

fun is_file_write :: "event \<Rightarrow> bool" where
  "is_file_write (EvOpenWrite p b) = True"
| "is_file_write (EvWriteChunk p c b) = True"
| "is_file_write (EvJsonDump p d b) = True"
| "is_file_write (EvToCsv p d b) = True"
| "is_file_write (EvDumpSettings f b) = True"
| "is_file_write _ = False"

text \<open>One of the three collectors is entered.\<close>

fun is_collector_entry :: "event \<Rightarrow> bool" where
  "is_collector_entry (EvEnter name args) =
     (name = ''get_user_posts'' \<or> name = ''get_followers'' \<or> name = ''get_following'')"
| "is_collector_entry _ = False"



fun is_sleep :: "event \<Rightarrow> bool" where
  "is_sleep (EvSleep d) = True"
| "is_sleep _ = False"

fun is_download :: "event \<Rightarrow> bool" where
  "is_download (EvDownloadMedia url filename b) = True"
| "is_download _ = False"

section \<open>A concrete platform\<close>

text \<open>
  An extractor and a platform to run the methods on: the account \<^verbatim>\<open>alice\<close> with one
  photo and one video, one follower, and every external call succeeding. The world is
  the number of \<^verbatim>\<open>client.login\<close> calls made so far.
\<close>

definition demo_self :: extractor where
  "demo_self = \<lparr> self_username = AStr ''me'', self_password = AStr ''secret'',
      session_file = ''instagram_session.json'', output_dir = ''extracted_data'',
      request_delay = 0, os_environ = Map.empty \<rparr>"

definition demo_user :: pyobj where
  "demo_user = map_of [(''pk'', AStr ''42''), (''username'', AStr ''alice''), (''full_name'', AStr ''Alice''),
     (''biography'', AStr ''hi''), (''external_url'', ANone), (''follower_count'', AInt 1),
     (''following_count'', AInt 0), (''media_count'', AInt 2), (''is_private'', ABool False),
     (''is_verified'', ABool False), (''profile_pic_url'', AStr ''http://p/a.jpg'')]"

definition demo_photo :: pyobj where
  "demo_photo = map_of [(''id'', AStr ''1_42''), (''code'', AStr ''abc''), (''taken_at'', ADatetime ''2024-01-01T10:00:00''),
     (''media_type'', AInt 1), (''caption_text'', AStr ''sun''), (''like_count'', AInt 3),
     (''comment_count'', AInt 0), (''thumbnail_url'', AStr ''http://m/1.jpg'')]"

definition demo_video :: pyobj where
  "demo_video = map_of [(''id'', AStr ''2_42''), (''code'', AStr ''def''), (''taken_at'', ADatetime ''2024-01-02T10:00:00''),
     (''media_type'', AInt 2), (''caption_text'', AStr ''sea''), (''like_count'', AInt 5),
     (''comment_count'', AInt 1), (''play_count'', AInt 9), (''thumbnail_url'', AStr ''http://m/2.jpg''),
     (''video_url'', AStr ''http://m/2.mp4'')]"

definition demo_account :: pyobj where
  "demo_account = map_of [(''pk'', AStr ''7''), (''username'', AStr ''bob''), (''full_name'', AStr ''Bob''),
     (''is_private'', ABool False), (''is_verified'', ABool True), (''profile_pic_url'', AStr ''http://p/b.jpg'')]"

definition demo_platform :: "nat platform" where
  "demo_platform = \<lparr>
     os_path_exists = (\<lambda>f w. (True, w)),
     load_settings = (\<lambda>f w. (Inr (), w)),
     client_login = (\<lambda>u p w. (Inr (ABool True), Suc w)),
     dump_settings = (\<lambda>f w. (Inr (), w)),
     user_info_by_username = (\<lambda>u w. (Inr demo_user, w)),
     user_id_from_username = (\<lambda>u w. (Inr (AStr ''42''), w)),
     user_medias = (\<lambda>uid n w. (Inr [demo_photo, demo_video], w)),
     user_followers = (\<lambda>uid n w. (Inr [(AStr ''7'', demo_account)], w)),
     user_following = (\<lambda>uid n w. (Inr [], w)),
     datetime_now = (\<lambda>w. (''2024-01-03T12:00:00'', w)),
     http_get = (\<lambda>url w. (Inr [Inr ''data''], w)),
     open_write = (\<lambda>p w. (Inr (), w)),
     write_chunk = (\<lambda>p c w. (Inr (), w)),
     json_dump = (\<lambda>p d w. (Inr (), w)),
     to_csv = (\<lambda>p d w. (Inr (), w)),
     read_input = (\<lambda>prompt w. (Inr '' alice '', w)) \<rparr>"


text \<open>The session file is corrupt and the password is wrong.\<close>

definition demo_platform_login_fails :: "nat platform" where
  "demo_platform_login_fails = demo_platform \<lparr>
     load_settings := (\<lambda>f w. (Inl (Exn OtherException ''corrupt session''), w)),
     client_login := (\<lambda>u p w. (Inl (Exn BadPassword ''bad password''), Suc w)) \<rparr>"


text \<open>The profile lookup fails.\<close>

definition demo_platform_no_profile :: "nat platform" where
  "demo_platform_no_profile = demo_platform \<lparr>
     user_info_by_username := (\<lambda>u w. (Inl (Exn OtherException ''User not found''), w)) \<rparr>"


text \<open>A media item that lacks \<^verbatim>\<open>like_count\<close>, returned after the photo.\<close>

definition demo_broken :: pyobj where
  "demo_broken = map_of [(''id'', AStr ''3_42''), (''code'', AStr ''ghi''), (''taken_at'', ANone),
     (''media_type'', AInt 8), (''comment_count'', AInt 0), (''thumbnail_url'', ANone)]"

definition demo_platform_broken_item :: "nat platform" where
  "demo_platform_broken_item = demo_platform \<lparr>
     user_medias := (\<lambda>uid n w. (Inr [demo_photo, demo_broken], w)) \<rparr>"


text \<open>An extraction result with one post and no followers, and a disk that is full.\<close>

definition demo_data :: dict where
  "demo_data =
     [(''user_info'', PDict [(''pk'', Atom (AStr ''42'')), (''username'', Atom (AStr ''alice''))]),
      (''posts'', PList [PDict [(''id'', Atom (AStr ''1_42'')), (''code'', Atom (AStr ''abc''))]]),
      (''followers'', PList []),
      (''following'', PList [PDict [(''pk'', Atom (AStr ''7'')), (''username'', Atom (AStr ''bob''))]]),
      (''extraction_timestamp'', Atom (AStr ''2024-01-03T12:00:00''))]"

definition demo_platform_disk_full :: "nat platform" where
  "demo_platform_disk_full = demo_platform \<lparr>
     to_csv := (\<lambda>p d w. (Inl (Exn OtherException ''No space left on device''), w)) \<rparr>"


section \<open>Properties\<close>

subsection \<open>The computations\<close>

lemma io_bindE:
  assumes "io_bind m f w = (r, evs, w')"
  obtains (raised) e where "m w = (Inl e, evs, w')" "r = Inl e"
  | (returned) x evs1 w1 evs2 where "m w = (Inr x, evs1, w1)" "f x w1 = (r, evs2, w')" "evs = evs1 @ evs2"
  using assms by (auto simp: io_bind_def split: prod.splits sum.splits)

lemma io_tryE:
  assumes "io_try m h w = (r, evs, w')"
  obtains (caught) e evs1 w1 evs2 where "m w = (Inl e, evs1, w1)" "h e w1 = (r, evs2, w')" "evs = evs1 @ evs2"
  | (returned) x where "m w = (Inr x, evs, w')" "r = Inr x"
  using assms by (auto simp: io_try_def split: prod.splits sum.splits)

lemma io_bind_emit [simp]:
  "io_bind (emit ev) f w = (case f () w of (r, evs, w') \<Rightarrow> (r, ev # evs, w'))"
  by (simp add: io_bind_def emit_def)

lemma io_bind_logger [simp]:
  "io_bind (logger lvl msg) f w = (case f () w of (r, evs, w') \<Rightarrow> (r, EvLog lvl msg # evs, w'))"
  by (simp add: logger_def)

lemma io_bind_return [simp]: "io_bind (io_return x) f w = f x w"
  by (simp add: io_bind_def io_return_def split: prod.splits)

lemma io_return_eq [simp]: "io_return x w = (r, evs, w') \<longleftrightarrow> r = Inr x \<and> evs = [] \<and> w' = w"
  by (auto simp: io_return_def)

lemma emit_eq [simp]: "emit ev w = (r, evs, w') \<longleftrightarrow> r = Inr () \<and> evs = [ev] \<and> w' = w"
  by (auto simp: emit_def)

lemma logger_eq [simp]: "logger lvl msg w = (r, evs, w') \<longleftrightarrow> r = Inr () \<and> evs = [EvLog lvl msg] \<and> w' = w"
  by (auto simp: logger_def)

lemma ext_call_eq:
  "ext_call f ev w = (r, evs, w') \<longleftrightarrow> f w = (r, w') \<and> evs = [ev (succeeded r)]"
  by (auto simp: ext_call_def split: prod.splits)

declare io_return_def [simp] emit_def [simp] logger_def [simp] io_raise_def [simp] io_lift_def [simp]

lemma time_sleep_ok: "can_sleep d \<Longrightarrow> time_sleep d w = (Inr (), [EvSleep d], w)"
  by (simp add: time_sleep_def can_sleep_def)

lemma time_sleep_raises: "\<not> can_sleep d \<Longrightarrow> \<exists>e. time_sleep d w = (Inl e, [], w)"
  by (auto simp: time_sleep_def can_sleep_def)

lemma login_handler_eq:
  "login_handler e w = (r, evs, w') \<Longrightarrow> r = Inr False \<and> w' = w \<and> (\<exists>m. evs = [EvLog Error m])"
proof -
  obtain c m where e: "e = Exn c m" by (cases e) auto
  show "login_handler e w = (r, evs, w') \<Longrightarrow> r = Inr False \<and> w' = w \<and> (\<exists>m. evs = [EvLog Error m])"
    unfolding e by (cases c) auto
qed

lemma io_try_total:
  assumes "\<And>e w1. \<exists>x. fst (h e w1) = Inr x"
  shows "\<exists>x. fst (io_try m h w) = Inr x"
proof (cases "m w")
  case (fields r evs w1)
  show ?thesis
  proof (cases r)
    case (Inl e)
    obtain x where "fst (h e w1) = Inr x" using assms by blast
    then show ?thesis using fields Inl by (cases "h e w1") (simp add: io_try_def)
  next
    case (Inr x)
    then show ?thesis using fields by (simp add: io_try_def)
  qed
qed

lemma login_handler_total: "\<exists>x. fst (login_handler e w) = Inr x"
proof -
  obtain c m where e: "e = Exn c m" by (cases e) auto
  show ?thesis unfolding e by (cases c) auto
qed

text \<open>
  C10. \<^verbatim>\<open>login\<close> returns a boolean whatever the client calls do: whether the session
  file exists, whether loading it, either \<^verbatim>\<open>client.login\<close> call or the session dump
  raises. No exception reaches the caller.
\<close>

theorem login_total: "\<exists>b. result_of (login P self w) = Inr b"
proof -
  let ?h = "\<lambda>e. io_bind (logger Warning (''Failed to load session: '' @ exn_str e)) (\<lambda>_. io_return (None :: bool option))"
  have "\<exists>x. fst (io_try (login_reuse P self) ?h (w0::'a)) = Inr x" for w0
    by (rule io_try_total) (simp add: io_return_def)
  then obtain x where x: "fst (io_try (login_reuse P self) ?h w) = Inr x" by blast
  obtain evs w1 where t: "io_try (login_reuse P self) ?h w = (Inr x, evs, w1)"
    using x by (cases "io_try (login_reuse P self) ?h w") auto
  obtain y where y: "fst (io_try (login_fresh P self) login_handler w1) = Inr y"
    using io_try_total[of login_handler "login_fresh P self" w1] login_handler_total by blast
  obtain evs2 w2 where t2: "io_try (login_fresh P self) login_handler w1 = (Inr y, evs2, w2)"
    using y by (cases "io_try (login_fresh P self) login_handler w1") auto
  show ?thesis using t t2
    by (cases x) (simp_all add: login_def result_of_def io_bind_def)
qed


subsection \<open>\<^verbatim>\<open>login\<close>\<close>











theorem login_total_witness:
  "result_of (login demo_platform_login_fails demo_self 0) = Inr False"
proof -
  obtain b where b: "result_of (login demo_platform_login_fails demo_self 0) = Inr b"
    using login_total[of demo_platform_login_fails demo_self 0] by blast
  have "result_of (login demo_platform_login_fails demo_self 0) \<noteq> Inr True"
    by code_simp
  with b show ?thesis by (cases b) auto
qed


subsection \<open>\<^verbatim>\<open>extract_user_data\<close> without a profile\<close>

lemma get_user_info_events:
  assumes "get_user_info P self username w = (r, evs, w')"
  shows "\<forall>ev\<in>set evs. \<not> is_file_write ev \<and> \<not> is_collector_entry ev"
  using assms
  by (auto simp: get_user_info_def get_user_info_body_def time_sleep_def now_call_def
        io_bind_def io_try_def ext_call_def
      split: prod.splits sum.splits if_splits)

text \<open>
  C1. When \<^verbatim>\<open>get_user_info\<close> returns \<^verbatim>\<open>None\<close>, \<^verbatim>\<open>extract_user_data\<close> returns the empty
  dictionary. Its events are its entry, its first log record and those of
  \<^verbatim>\<open>get_user_info\<close>: no file is opened or written (the JSON document included) and none of
  \<^verbatim>\<open>get_user_posts\<close>, \<^verbatim>\<open>get_followers\<close>, \<^verbatim>\<open>get_following\<close> is entered.
\<close>

theorem extract_user_data_profile_absent:
  assumes "result_of (get_user_info P self username w) = Inr None"
  shows "result_of (extract_user_data P self username w) = Inr []
       \<and> events_of (extract_user_data P self username w)
           = EvEnter ''extract_user_data'' [username]
             # EvLog Info (''Starting data extraction for '' @ username)
             # events_of (get_user_info P self username w)
       \<and> (\<forall>ev\<in>set (events_of (extract_user_data P self username w)).
             \<not> is_file_write ev \<and> \<not> is_collector_entry ev)"
proof -
  obtain evs w' where g: "get_user_info P self username w = (Inr None, evs, w')"
    using assms by (cases "get_user_info P self username w") (auto simp: result_of_def)
  have e: "extract_user_data P self username w
            = (Inr [], EvEnter ''extract_user_data'' [username]
                 # EvLog Info (''Starting data extraction for '' @ username) # evs, w')"
    using g by (simp add: extract_user_data_def io_bind_def)
  show ?thesis
    using e g get_user_info_events[OF g] by (simp add: result_of_def events_of_def)
qed

theorem extract_user_data_profile_absent_witness:
  "result_of (get_user_info demo_platform_no_profile demo_self ''alice'' 0) = Inr None
   \<and> result_of (extract_user_data demo_platform_no_profile demo_self ''alice'' 0) = Inr []
   \<and> events_of (extract_user_data demo_platform_no_profile demo_self ''alice'' 0)
      = [EvEnter ''extract_user_data'' [''alice''],
         EvLog Info ''Starting data extraction for alice'',
         EvEnter ''get_user_info'' [''alice''],
         EvSleep 0,
         EvUserInfoByUsername ''alice'' False,
         EvLog Error ''Failed to get user info for alice: User not found'']"
proof -
  have h: "result_of (get_user_info demo_platform_no_profile demo_self ''alice'' 0) = Inr None"
    by code_simp
  have ev: "events_of (get_user_info demo_platform_no_profile demo_self ''alice'' 0)
     = [EvEnter ''get_user_info'' [''alice''], EvSleep 0, EvUserInfoByUsername ''alice'' False,
         EvLog Error ''Failed to get user info for alice: User not found'']"
    by code_simp
  show ?thesis
    using extract_user_data_profile_absent[OF h] h ev by simp
qed

subsection \<open>\<^verbatim>\<open>download_media\<close> and one turn of the loop\<close>

lemma lower_char_t: "lower_char c = CHR ''t'' \<longleftrightarrow> c = CHR ''t'' \<or> c = CHR ''T''"
  by (simp add: lower_char_def)

lemma write_chunks_events:
  "write_chunks P fp cs w = (r, evs, w') \<Longrightarrow> \<forall>ev\<in>set evs. \<exists>c b. ev = EvWriteChunk fp c b"
proof (induction cs arbitrary: w r evs w')
  case Nil
  then show ?case by simp
next
  case (Cons x cs)
  show ?case
  proof (cases x)
    case (Inl e)
    with Cons.prems show ?thesis by simp
  next
    case (Inr c)
    obtain r1 w1 where c1: "write_chunk P fp c w = (r1, w1)" by (cases "write_chunk P fp c w") auto
    show ?thesis
    proof (cases r1)
      case (Inl e)
      with Cons.prems Inr c1 show ?thesis by (auto simp: ext_call_def)
    next
      case r1: (Inr u)
      obtain r2 evs2 w2 where c2: "write_chunks P fp cs w1 = (r2, evs2, w2)"
        by (cases "write_chunks P fp cs w1") auto
      from Cons.IH[OF c2] Cons.prems Inr c1 r1 c2 show ?thesis
        by (auto simp: ext_call_def)
    qed
  qed
qed

lemma download_media_body_events:
  assumes "download_media_body P self url fn w = (r, evs, w')"
  shows "\<forall>ev\<in>set evs. \<not> is_download ev"
proof -
  have wc: "\<And>cs w0 r0 evs0 w0'. write_chunks P [output_dir self, ''media'', fn] cs w0 = (r0, evs0, w0')
     \<Longrightarrow> \<forall>ev\<in>set evs0. \<not> is_download ev"
    using write_chunks_events by fastforce
  show ?thesis
    using assms wc
    by (auto simp: download_media_body_def ext_call_eq elim!: io_bindE)
qed

lemma download_media_run:
  assumes "download_media P self url fn w = (r, evs, w')"
  shows "\<exists>b evs0. r = Inr b \<and> evs = evs0 @ [EvDownloadMedia url fn b] \<and> (\<forall>ev\<in>set evs0. \<not> is_download ev)"
proof -
  obtain rb evsb wb where b: "download_media_body P self url fn w = (rb, evsb, wb)"
    by (cases "download_media_body P self url fn w") auto
  note be = download_media_body_events[OF b]
  show ?thesis
  proof (cases rb)
    case (Inl e)
    then show ?thesis using assms b be
      by (auto simp: download_media_def io_bind_def io_try_def)
  next
    case (Inr x)
    then show ?thesis using assms b be
      by (auto simp: download_media_def io_bind_def io_try_def)
  qed
qed


lemma py_eq_int_exclusive: "py_eq_int a 1 \<Longrightarrow> \<not> py_eq_int a 2"
  by (cases a) (auto split: if_splits)

lemma exn_bind_Inr_iff: "exn_bind r f = Inr y \<longleftrightarrow> (\<exists>x. r = Inr x \<and> f x = Inr y)"
  by (cases r) (auto simp: exn_bind_def)

lemma getattr_Inr_iff: "getattr obj name = Inr v \<longleftrightarrow> obj name = Some v"
  by (auto simp: getattr_def split: option.splits)


lemma post_data_of_id:
  assumes "post_data_of media = Inr pd"
  shows "map_of pd ''id'' = Some (Atom (AStr (py_str (attr_of media ''id''))))"
  using assms unfolding post_data_of_def exn_bind_Inr_iff getattr_Inr_iff
  by (elim exE conjE) (auto simp: attr_of_def getattr_default_def)



lemma photo_step_run:
  assumes "photo_step P self username media pd w = (r, evs, w')"
  shows "if toggle_on self ''DOWNLOAD_PHOTOS'' \<and> py_eq_int (attr_of media ''media_type'') 1
         then \<exists>b. r = Inr (if b then set_local_file (media_filename username media ''.jpg'') pd else pd)
                \<and> filter is_download evs = [EvDownloadMedia (py_str (attr_of media ''thumbnail_url''))
                      (media_filename username media ''.jpg'') b]
         else r = Inr pd \<and> evs = [] \<and> w' = w"
proof (cases "toggle_on self ''DOWNLOAD_PHOTOS'' \<and> py_eq_int (attr_of media ''media_type'') 1")
  case True
  let ?url = "py_str (attr_of media ''thumbnail_url'')"
  let ?fn = "media_filename username media ''.jpg''"
  obtain r1 evs1 w1 where d: "download_media P self ?url ?fn w = (r1, evs1, w1)"
    by (cases "download_media P self ?url ?fn w") auto
  from download_media_run[OF d] obtain b evs0 where
    b: "r1 = Inr b" "evs1 = evs0 @ [EvDownloadMedia ?url ?fn b]" "\<forall>ev\<in>set evs0. \<not> is_download ev"
    by blast
  have f: "filter is_download evs0 = []" using b(3) by (simp add: filter_empty_conv)
  have "photo_step P self username media pd w
          = (Inr (if b then set_local_file ?fn pd else pd), evs1, w1)"
    using True d b(1) by (simp add: photo_step_def io_bind_def)
  with assms have "r = Inr (if b then set_local_file ?fn pd else pd)" "evs = evs1" by simp_all
  moreover have "filter is_download evs1 = [EvDownloadMedia ?url ?fn b]"
    unfolding b(2) using f by simp
  ultimately have "\<exists>b. r = Inr (if b then set_local_file ?fn pd else pd)
      \<and> filter is_download evs = [EvDownloadMedia ?url ?fn b]" by blast
  then show ?thesis by (simp only: True simp_thms if_True)
next
  case False
  have "photo_step P self username media pd w = (Inr pd, [], w)"
    unfolding photo_step_def if_not_P[OF False] by simp
  with assms show ?thesis unfolding if_not_P[OF False] by simp
qed

lemma video_step_run:
  assumes "video_step P self username media pd w = (r, evs, w')"
  shows "if toggle_on self ''DOWNLOAD_VIDEOS'' \<and> py_eq_int (attr_of media ''media_type'') 2
            \<and> hasattr media ''video_url''
         then \<exists>b. r = Inr (if b then set_local_file (media_filename username media ''.mp4'') pd else pd)
                \<and> filter is_download evs = [EvDownloadMedia (py_str (attr_of media ''video_url''))
                      (media_filename username media ''.mp4'') b]
         else r = Inr pd \<and> evs = [] \<and> w' = w"
proof (cases "toggle_on self ''DOWNLOAD_VIDEOS'' \<and> py_eq_int (attr_of media ''media_type'') 2
            \<and> hasattr media ''video_url''")
  case True
  let ?url = "py_str (attr_of media ''video_url'')"
  let ?fn = "media_filename username media ''.mp4''"
  obtain r1 evs1 w1 where d: "download_media P self ?url ?fn w = (r1, evs1, w1)"
    by (cases "download_media P self ?url ?fn w") auto
  from download_media_run[OF d] obtain b evs0 where
    b: "r1 = Inr b" "evs1 = evs0 @ [EvDownloadMedia ?url ?fn b]" "\<forall>ev\<in>set evs0. \<not> is_download ev"
    by blast
  have f: "filter is_download evs0 = []" using b(3) by (simp add: filter_empty_conv)
  have "video_step P self username media pd w
          = (Inr (if b then set_local_file ?fn pd else pd), evs1, w1)"
    using True d b(1) by (simp add: video_step_def io_bind_def)
  with assms have "r = Inr (if b then set_local_file ?fn pd else pd)" "evs = evs1" by simp_all
  moreover have "filter is_download evs1 = [EvDownloadMedia ?url ?fn b]"
    unfolding b(2) using f by simp
  ultimately have "\<exists>b. r = Inr (if b then set_local_file ?fn pd else pd)
      \<and> filter is_download evs = [EvDownloadMedia ?url ?fn b]" by blast
  then show ?thesis by (simp only: True simp_thms if_True)
next
  case False
  have "video_step P self username media pd w = (Inr pd, [], w)"
    unfolding video_step_def if_not_P[OF False] by simp
  with assms show ?thesis unfolding if_not_P[OF False] by simp
qed

lemma download_media_no_sleep:
  assumes "download_media P self url fn w = (r, evs, w')"
  shows "filter is_sleep evs = []"
proof -
  have wc: "\<And>cs w0 r0 evs0 w0'. write_chunks P [output_dir self, ''media'', fn] cs w0 = (r0, evs0, w0')
     \<Longrightarrow> \<forall>ev\<in>set evs0. \<not> is_sleep ev"
    using write_chunks_events by fastforce
  have body: "\<And>rb evsb wb. download_media_body P self url fn w = (rb, evsb, wb)
     \<Longrightarrow> \<forall>ev\<in>set evsb. \<not> is_sleep ev"
    using wc by (auto simp: download_media_body_def ext_call_eq elim!: io_bindE)
  obtain rb evsb wb where b: "download_media_body P self url fn w = (rb, evsb, wb)"
    by (cases "download_media_body P self url fn w") auto
  have "\<forall>ev\<in>set evs. \<not> is_sleep ev"
    using assms b body[OF b]
    by (cases rb) (auto simp: download_media_def io_bind_def io_try_def)
  then show ?thesis by (simp add: filter_empty_conv)
qed

lemma photo_step_no_sleep:
  assumes "photo_step P self username media pd w = (r, evs, w')"
  shows "filter is_sleep evs = []"
proof (cases "toggle_on self ''DOWNLOAD_PHOTOS'' \<and> py_eq_int (attr_of media ''media_type'') 1")
  case True
  let ?url = "py_str (attr_of media ''thumbnail_url'')"
  let ?fn = "media_filename username media ''.jpg''"
  obtain r1 evs1 w1 where d: "download_media P self ?url ?fn w = (r1, evs1, w1)"
    by (cases "download_media P self ?url ?fn w") auto
  have "evs = evs1" using assms d True
    by (cases r1) (auto simp: photo_step_def io_bind_def)
  then show ?thesis using download_media_no_sleep[OF d] by simp
next
  case False
  have "photo_step P self username media pd w = (Inr pd, [], w)"
    unfolding photo_step_def if_not_P[OF False] by simp
  with assms show ?thesis by simp
qed

lemma video_step_no_sleep:
  assumes "video_step P self username media pd w = (r, evs, w')"
  shows "filter is_sleep evs = []"
proof (cases "toggle_on self ''DOWNLOAD_VIDEOS'' \<and> py_eq_int (attr_of media ''media_type'') 2
            \<and> hasattr media ''video_url''")
  case True
  let ?url = "py_str (attr_of media ''video_url'')"
  let ?fn = "media_filename username media ''.mp4''"
  obtain r1 evs1 w1 where d: "download_media P self ?url ?fn w = (r1, evs1, w1)"
    by (cases "download_media P self ?url ?fn w") auto
  have "evs = evs1" using assms d True
    by (cases r1) (auto simp: video_step_def io_bind_def)
  then show ?thesis using download_media_no_sleep[OF d] by simp
next
  case False
  have "video_step P self username media pd w = (Inr pd, [], w)"
    unfolding video_step_def if_not_P[OF False] by simp
  with assms show ?thesis by simp
qed

lemma process_media_unfold:
  assumes "can_sleep (of_int (request_delay self))" "post_data_of media = Inr pd"
    "photo_step P self username media pd w = (Inr pd1, evs1, w1)"
    "video_step P self username media pd1 w1 = (Inr pd2, evs2, w2)"
  shows "process_media P self username media w
          = (Inr pd2, EvSleep (of_int (request_delay self)) # evs1 @ evs2, w2)"
  using assms by (simp add: process_media_def time_sleep_ok io_bind_def)

lemma photo_step_returns:
  "\<exists>pd1 evs1 w1. photo_step P self username media pd w = (Inr pd1, evs1, w1)"
proof -
  obtain r evs w' where p: "photo_step P self username media pd w = (r, evs, w')"
    by (cases "photo_step P self username media pd w") auto
  from photo_step_run[OF p] obtain pd1 where "r = Inr pd1" by (auto split: if_splits)
  with p show ?thesis by blast
qed

lemma video_step_returns:
  "\<exists>pd1 evs1 w1. video_step P self username media pd w = (Inr pd1, evs1, w1)"
proof -
  obtain r evs w' where p: "video_step P self username media pd w = (r, evs, w')"
    by (cases "video_step P self username media pd w") auto
  from video_step_run[OF p] obtain pd1 where "r = Inr pd1" by (auto split: if_splits)
  with p show ?thesis by blast
qed

lemma process_media_raised:
  assumes "process_media P self username media w = (Inl e, evs, w')"
  shows "filter is_download evs = []
       \<and> (\<not> can_sleep (of_int (request_delay self)) \<or> post_data_of media = Inl e)"
proof (cases "can_sleep (of_int (request_delay self))")
  case False
  then obtain e' where "time_sleep (of_int (request_delay self)) w = (Inl e', [], w)"
    using time_sleep_raises[of "of_int (request_delay self)" w] by blast
  then show ?thesis using assms False by (auto simp: process_media_def io_bind_def)
next
  case d: True
  show ?thesis
  proof (cases "post_data_of media")
    case (Inl e')
    then show ?thesis using assms d
      by (auto simp: process_media_def time_sleep_ok io_bind_def)
  next
    case (Inr pd)
    obtain pd1 evs1 w1 where p: "photo_step P self username media pd w = (Inr pd1, evs1, w1)"
      using photo_step_returns[of P self username media pd w] by blast
    obtain pd2 evs2 w2 where v: "video_step P self username media pd1 w1 = (Inr pd2, evs2, w2)"
      using video_step_returns[of P self username media pd1 w1] by blast
    have "process_media P self username media w
          = (Inr pd2, EvSleep (of_int (request_delay self)) # evs1 @ evs2, w2)"
      using process_media_unfold[OF d Inr p v] .
    with assms show ?thesis by simp
  qed
qed


lemma process_media_returned:
  assumes "process_media P self username media w = (Inr post, evs, w')"
  shows "\<exists>pd. post_data_of media = Inr pd \<and> can_sleep (of_int (request_delay self))
     \<and> filter is_sleep evs = [EvSleep (of_int (request_delay self))]
     \<and> (if toggle_on self ''DOWNLOAD_PHOTOS'' \<and> py_eq_int (attr_of media ''media_type'') 1
         then \<exists>b. post = (if b then set_local_file (media_filename username media ''.jpg'') pd else pd)
                \<and> filter is_download evs = [EvDownloadMedia (py_str (attr_of media ''thumbnail_url''))
                      (media_filename username media ''.jpg'') b]
         else if toggle_on self ''DOWNLOAD_VIDEOS'' \<and> py_eq_int (attr_of media ''media_type'') 2
            \<and> hasattr media ''video_url''
         then \<exists>b. post = (if b then set_local_file (media_filename username media ''.mp4'') pd else pd)
                \<and> filter is_download evs = [EvDownloadMedia (py_str (attr_of media ''video_url''))
                      (media_filename username media ''.mp4'') b]
         else post = pd \<and> filter is_download evs = [])"
proof -
  have d: "can_sleep (of_int (request_delay self))"
  proof (rule ccontr)
    assume "\<not> can_sleep (of_int (request_delay self))"
    then obtain e' where "time_sleep (of_int (request_delay self)) w = (Inl e', [], w)"
      using time_sleep_raises[of "of_int (request_delay self)" w] by blast
    then show False using assms by (auto simp: process_media_def io_bind_def)
  qed
  obtain pd where pd: "post_data_of media = Inr pd"
  proof (cases "post_data_of media")
    case (Inl e)
    then have False using assms d by (auto simp: process_media_def time_sleep_ok io_bind_def)
    then show ?thesis ..
  next
    case (Inr x)
    then show ?thesis using that by blast
  qed
  obtain pd1 evs1 w1 where p: "photo_step P self username media pd w = (Inr pd1, evs1, w1)"
    using photo_step_returns[of P self username media pd w] by blast
  obtain pd2 evs2 w2 where v: "video_step P self username media pd1 w1 = (Inr pd2, evs2, w2)"
    using video_step_returns[of P self username media pd1 w1] by blast
  have "process_media P self username media w
          = (Inr pd2, EvSleep (of_int (request_delay self)) # evs1 @ evs2, w2)"
    using process_media_unfold[OF d pd p v] .
  with assms have post: "post = pd2" and evs: "evs = EvSleep (of_int (request_delay self)) # evs1 @ evs2"
    by simp_all
  have sl: "filter is_sleep evs = [EvSleep (of_int (request_delay self))]"
    unfolding evs using photo_step_no_sleep[OF p] video_step_no_sleep[OF v] by simp
  note pr = photo_step_run[OF p]
  note vr = video_step_run[OF v]
  let ?PC = "toggle_on self ''DOWNLOAD_PHOTOS'' \<and> py_eq_int (attr_of media ''media_type'') 1"
  let ?VC = "toggle_on self ''DOWNLOAD_VIDEOS'' \<and> py_eq_int (attr_of media ''media_type'') 2
            \<and> hasattr media ''video_url''"
  have rest: "if ?PC
         then \<exists>b. post = (if b then set_local_file (media_filename username media ''.jpg'') pd else pd)
                \<and> filter is_download evs = [EvDownloadMedia (py_str (attr_of media ''thumbnail_url''))
                      (media_filename username media ''.jpg'') b]
         else if ?VC
         then \<exists>b. post = (if b then set_local_file (media_filename username media ''.mp4'') pd else pd)
                \<and> filter is_download evs = [EvDownloadMedia (py_str (attr_of media ''video_url''))
                      (media_filename username media ''.mp4'') b]
         else post = pd \<and> filter is_download evs = []"
  proof (cases ?PC)
    case True
    then have nv: "\<not> ?VC" using py_eq_int_exclusive by blast
    from pr obtain b where b: "pd1 = (if b then set_local_file (media_filename username media ''.jpg'') pd else pd)"
        "filter is_download evs1 = [EvDownloadMedia (py_str (attr_of media ''thumbnail_url''))
                      (media_filename username media ''.jpg'') b]"
      unfolding if_P[OF True] by auto
    from vr have "pd2 = pd1" "evs2 = []" unfolding if_not_P[OF nv] by auto
    then have "post = (if b then set_local_file (media_filename username media ''.jpg'') pd else pd)
                \<and> filter is_download evs = [EvDownloadMedia (py_str (attr_of media ''thumbnail_url''))
                      (media_filename username media ''.jpg'') b]"
      using b post evs by simp
    then show ?thesis unfolding if_P[OF True] by blast
  next
    case False
    from pr have p1: "pd1 = pd" "evs1 = []" unfolding if_not_P[OF False] by auto
    show ?thesis
    proof (cases ?VC)
      case True
      from vr obtain b where b: "pd2 = (if b then set_local_file (media_filename username media ''.mp4'') pd1 else pd1)"
        "filter is_download evs2 = [EvDownloadMedia (py_str (attr_of media ''video_url''))
                      (media_filename username media ''.mp4'') b]"
        unfolding if_P[OF True] by auto
      then have "post = (if b then set_local_file (media_filename username media ''.mp4'') pd else pd)
                \<and> filter is_download evs = [EvDownloadMedia (py_str (attr_of media ''video_url''))
                      (media_filename username media ''.mp4'') b]"
        using p1 post evs by simp
      then show ?thesis unfolding if_not_P[OF False] if_P[OF True] by blast
    next
      case nv: False
      from vr have "pd2 = pd1" "evs2 = []" unfolding if_not_P[OF nv] by auto
      then show ?thesis unfolding if_not_P[OF False] if_not_P[OF nv] using p1 post evs by simp
    qed
  qed
  show ?thesis using pd d sl rest by blast
qed

subsection \<open>The loop over the media\<close>


lemma posts_loop_Cons_Inr:
  assumes "process_media P self username media w = (Inr post, evs1, w1)"
  shows "posts_loop P self username (media # medias) acc w
           = (case posts_loop P self username medias (acc @ [post]) w1 of
                (r, evs2, w2) \<Rightarrow> (r, evs1 @ evs2, w2))"
  using assms by simp

lemma posts_loop_Cons_Inl:
  assumes "process_media P self username media w = (Inl e, evs1, w1)"
  shows "posts_loop P self username (media # medias) acc w = (Inl e, evs1, w1)"
  using assms by simp

lemma posts_loop_returned:
  assumes "posts_loop P self username medias acc w = (Inr posts, evs, w')"
  shows "\<exists>items. posts = acc @ items
     \<and> list_all2 (\<lambda>media post. \<exists>w0 evs0 w1. process_media P self username media w0 = (Inr post, evs0, w1))
          medias items
     \<and> filter is_sleep evs = replicate (length medias) (EvSleep (of_int (request_delay self)))"
  using assms
proof (induction medias arbitrary: acc w evs)
  case Nil
  then show ?case by simp
next
  case (Cons media medias)
  obtain r1 evs1 w1 where pm: "process_media P self username media w = (r1, evs1, w1)"
    by (cases "process_media P self username media w") auto
  show ?case
  proof (cases r1)
    case (Inl e)
    with Cons.prems pm show ?thesis by simp
  next
    case (Inr post)
    obtain r2 evs2 w2 where lp: "posts_loop P self username medias (acc @ [post]) w1 = (r2, evs2, w2)"
      by (cases "posts_loop P self username medias (acc @ [post]) w1") auto
    from Cons.prems pm Inr lp have r2: "r2 = Inr posts" and evs: "evs = evs1 @ evs2" and w2: "w2 = w'"
      by simp_all
    from Cons.IH[OF lp[unfolded r2 w2]] obtain items where
      it: "posts = (acc @ [post]) @ items"
        "list_all2 (\<lambda>media post. \<exists>w0 evs0 w1. process_media P self username media w0 = (Inr post, evs0, w1))
          medias items"
        "filter is_sleep evs2 = replicate (length medias) (EvSleep (of_int (request_delay self)))"
      by blast
    from process_media_returned[OF pm[unfolded Inr]]
    have s1: "filter is_sleep evs1 = [EvSleep (of_int (request_delay self))]" by blast
    have "posts = acc @ (post # items)" using it(1) by simp
    moreover have "list_all2 (\<lambda>media post. \<exists>w0 evs0 w1. process_media P self username media w0 = (Inr post, evs0, w1))
          (media # medias) (post # items)"
      using it(2) pm Inr by auto
    moreover have "filter is_sleep evs = replicate (length (media # medias)) (EvSleep (of_int (request_delay self)))"
      unfolding evs using s1 it(3) by simp
    ultimately show ?thesis by blast
  qed
qed


subsection \<open>Which downloads are attempted\<close>

lemma lower_char_r: "lower_char c = CHR ''r'' \<longleftrightarrow> c = CHR ''r'' \<or> c = CHR ''R''"
  by (simp add: lower_char_def)

lemma lower_char_u: "lower_char c = CHR ''u'' \<longleftrightarrow> c = CHR ''u'' \<or> c = CHR ''U''"
  by (simp add: lower_char_def)

lemma lower_char_e: "lower_char c = CHR ''e'' \<longleftrightarrow> c = CHR ''e'' \<or> c = CHR ''E''"
  by (simp add: lower_char_def)

lemma map_lower_char_Cons: "map lower_char v = x # xs \<longleftrightarrow> (\<exists>a v1. v = a # v1 \<and> lower_char a = x \<and> map lower_char v1 = xs)"
  by (cases v) auto

lemma py_lower_true_iff:
  "py_lower v = ''true'' \<longleftrightarrow>
     (\<exists>a b c d. v = [a, b, c, d] \<and> (a = CHR ''t'' \<or> a = CHR ''T'') \<and> (b = CHR ''r'' \<or> b = CHR ''R'')
        \<and> (c = CHR ''u'' \<or> c = CHR ''U'') \<and> (d = CHR ''e'' \<or> d = CHR ''E''))"
proof -
  have "py_lower v = ''true'' \<longleftrightarrow>
     (\<exists>a b c d. v = [a, b, c, d] \<and> lower_char a = CHR ''t'' \<and> lower_char b = CHR ''r''
        \<and> lower_char c = CHR ''u'' \<and> lower_char d = CHR ''e'')"
    unfolding py_lower_def map_lower_char_Cons by auto
  then show ?thesis
    unfolding lower_char_t lower_char_r lower_char_u lower_char_e .
qed

lemma toggle_on_iff:
  "toggle_on self name =
     (case os_environ self name of
        None \<Rightarrow> True
      | Some v \<Rightarrow> \<exists>a b c d. v = [a, b, c, d] \<and> (a = CHR ''t'' \<or> a = CHR ''T'') \<and> (b = CHR ''r'' \<or> b = CHR ''R'')
                    \<and> (c = CHR ''u'' \<or> c = CHR ''U'') \<and> (d = CHR ''e'' \<or> d = CHR ''E''))"
proof (cases "os_environ self name")
  case None
  have "py_lower ''true'' = ''true''" by (simp add: py_lower_def lower_char_def)
  then show ?thesis using None by (simp add: toggle_on_def getenv_def)
next
  case (Some v)
  have "toggle_on self name = (py_lower v = ''true'')"
    using Some by (simp add: toggle_on_def getenv_def)
  then show ?thesis unfolding py_lower_true_iff using Some by simp
qed

lemma map_of_set_local_file:
  "map_of (set_local_file fn pd) k
     = (if k = ''local_file'' then Some (Atom (AStr (''media/'' @ fn))) else map_of pd k)"
  by (simp add: set_local_file_def update_conv')

lemma process_media_post_shape:
  assumes "process_media P self username media w = (Inr post, evs, w')"
  shows "\<exists>pd. post_data_of media = Inr pd \<and> (post = pd \<or> (\<exists>fn. post = set_local_file fn pd))"
proof -
  let ?PC = "toggle_on self ''DOWNLOAD_PHOTOS'' \<and> py_eq_int (attr_of media ''media_type'') 1"
  let ?VC = "toggle_on self ''DOWNLOAD_VIDEOS'' \<and> py_eq_int (attr_of media ''media_type'') 2
                    \<and> hasattr media ''video_url''"
  from process_media_returned[OF assms] obtain pd where pd: "post_data_of media = Inr pd"
    and rest: "if ?PC
         then \<exists>b. post = (if b then set_local_file (media_filename username media ''.jpg'') pd else pd)
                \<and> filter is_download evs = [EvDownloadMedia (py_str (attr_of media ''thumbnail_url''))
                      (media_filename username media ''.jpg'') b]
         else if ?VC
         then \<exists>b. post = (if b then set_local_file (media_filename username media ''.mp4'') pd else pd)
                \<and> filter is_download evs = [EvDownloadMedia (py_str (attr_of media ''video_url''))
                      (media_filename username media ''.mp4'') b]
         else post = pd \<and> filter is_download evs = []"
    by blast
  have "post = pd \<or> (\<exists>fn. post = set_local_file fn pd)"
  proof (cases ?PC)
    case True
    from rest obtain b where "post = (if b then set_local_file (media_filename username media ''.jpg'') pd else pd)"
      unfolding if_P[OF True] by blast
    then show ?thesis by (cases b) auto
  next
    case False
    show ?thesis
    proof (cases ?VC)
      case True
      from rest obtain b where "post = (if b then set_local_file (media_filename username media ''.mp4'') pd else pd)"
        unfolding if_not_P[OF False] if_P[OF True] by blast
      then show ?thesis by (cases b) auto
    next
      case nv: False
      from rest show ?thesis unfolding if_not_P[OF False] if_not_P[OF nv] by blast
    qed
  qed
  with pd show ?thesis by blast
qed

lemma process_media_id:
  assumes "process_media P self username media w = (Inr post, evs, w')"
  shows "map_of post ''id'' = Some (Atom (AStr (py_str (attr_of media ''id''))))"
proof -
  from process_media_post_shape[OF assms] obtain pd where pd: "post_data_of media = Inr pd"
    and sh: "post = pd \<or> (\<exists>fn. post = set_local_file fn pd)" by blast
  from sh show ?thesis
  proof
    assume "post = pd"
    then show ?thesis using post_data_of_id[OF pd] by simp
  next
    assume "\<exists>fn. post = set_local_file fn pd"
    then obtain fn where "post = set_local_file fn pd" ..
    then show ?thesis using post_data_of_id[OF pd] by (simp add: map_of_set_local_file)
  qed
qed

lemma process_media_downloads_due:
  assumes "process_media P self username media w = (Inr post, evs, w')"
  shows "(\<exists>b. filter is_download evs =
           (if toggle_on self ''DOWNLOAD_PHOTOS'' \<and> py_eq_int (attr_of media ''media_type'') 1
            then [EvDownloadMedia (py_str (attr_of media ''thumbnail_url''))
                    (username @ ''_'' @ py_str (attr_of media ''id'') @ ''.jpg'') b]
            else if toggle_on self ''DOWNLOAD_VIDEOS'' \<and> py_eq_int (attr_of media ''media_type'') 2
                    \<and> hasattr media ''video_url''
            then [EvDownloadMedia (py_str (attr_of media ''video_url''))
                    (username @ ''_'' @ py_str (attr_of media ''id'') @ ''.mp4'') b]
            else []))
       \<and> map_of post ''id'' = Some (Atom (AStr (py_str (attr_of media ''id''))))
       \<and> (\<forall>name. toggle_on self name =
             (case os_environ self name of
                None \<Rightarrow> True
              | Some v \<Rightarrow> \<exists>a b c d. v = [a, b, c, d] \<and> (a = CHR ''t'' \<or> a = CHR ''T'')
                    \<and> (b = CHR ''r'' \<or> b = CHR ''R'') \<and> (c = CHR ''u'' \<or> c = CHR ''U'')
                    \<and> (d = CHR ''e'' \<or> d = CHR ''E'')))"
proof -
  let ?PC = "toggle_on self ''DOWNLOAD_PHOTOS'' \<and> py_eq_int (attr_of media ''media_type'') 1"
  let ?VC = "toggle_on self ''DOWNLOAD_VIDEOS'' \<and> py_eq_int (attr_of media ''media_type'') 2
                    \<and> hasattr media ''video_url''"
  note pr = process_media_returned[OF assms]
  have dl: "\<exists>b. filter is_download evs =
           (if ?PC
            then [EvDownloadMedia (py_str (attr_of media ''thumbnail_url''))
                    (username @ ''_'' @ py_str (attr_of media ''id'') @ ''.jpg'') b]
            else if ?VC
            then [EvDownloadMedia (py_str (attr_of media ''video_url''))
                    (username @ ''_'' @ py_str (attr_of media ''id'') @ ''.mp4'') b]
            else [])"
  proof (cases ?PC)
    case True
    with pr show ?thesis unfolding if_P[OF True] media_filename_def by blast
  next
    case False
    show ?thesis
    proof (cases ?VC)
      case True
      with pr show ?thesis unfolding if_not_P[OF False] if_P[OF True] media_filename_def by blast
    next
      case nv: False
      with pr show ?thesis unfolding if_not_P[OF False] if_not_P[OF nv] by blast
    qed
  qed
  show ?thesis using dl process_media_id[OF assms] toggle_on_iff[of self] by (intro conjI allI) assumption+
qed

subsection \<open>The \<^verbatim>\<open>local_file\<close> entry\<close>





lemma io_triple: "t = (result_of t, events_of t, world_of t)"
  by (simp add: result_of_def events_of_def world_of_def)

subsection \<open>\<^verbatim>\<open>get_user_posts\<close>\<close>

lemma get_user_posts_body_returned:
  assumes "get_user_posts_body P self username limit w = (Inr posts, evs, w')"
  shows "\<exists>user_id w0 medias w1 evs1. user_id_from_username P username w = (Inr user_id, w0)
      \<and> user_medias P user_id limit w0 = (Inr medias, w1)
      \<and> posts_loop P self username medias [] w1 = (Inr posts, evs1, w')"
  using assms unfolding get_user_posts_body_def
  by (elim io_bindE) (auto simp: ext_call_eq)

lemma get_user_posts_of_body:
  "get_user_posts_body P self username limit w = (Inr posts, evs, w')
   \<Longrightarrow> get_user_posts P self username (Some limit) w = (Inr posts, EvEnter ''get_user_posts'' [username] # evs, w')"
  by (simp add: get_user_posts_def io_try_def)

text \<open>
  C9. When the \<^verbatim>\<open>try\<close> block of \<^verbatim>\<open>get_user_posts\<close> completes, the client returned a list
  of media items and the result has one dictionary per item, in the same order: the
  lengths agree and the \<^verbatim>\<open>id\<close> entry at each position is \<^verbatim>\<open>str(media.id)\<close> of the item at
  that position. That list is what \<^verbatim>\<open>get_user_posts\<close> returns.
\<close>

theorem get_user_posts_one_post_per_item:
  assumes "get_user_posts_body P self username limit w = (Inr posts, evs, w')"
  shows "\<exists>user_id w0 medias w1. user_id_from_username P username w = (Inr user_id, w0)
      \<and> user_medias P user_id limit w0 = (Inr medias, w1)
      \<and> length posts = length medias
      \<and> (\<forall>i<length medias.
            map_of (posts ! i) ''id'' = Some (Atom (AStr (py_str (attr_of (medias ! i) ''id'')))))
      \<and> result_of (get_user_posts P self username (Some limit) w) = Inr posts"
proof -
  from get_user_posts_body_returned[OF assms] obtain user_id w0 medias w1 evs1 where
    u: "user_id_from_username P username w = (Inr user_id, w0)"
    and m: "user_medias P user_id limit w0 = (Inr medias, w1)"
    and l: "posts_loop P self username medias [] w1 = (Inr posts, evs1, w')"
    by blast
  from posts_loop_returned[OF l] have
    la: "list_all2 (\<lambda>media post. \<exists>w0 evs0 w1. process_media P self username media w0 = (Inr post, evs0, w1))
          medias posts"
    by simp
  have len: "length posts = length medias" using la by (simp add: list_all2_lengthD)
  have ids: "\<forall>i<length medias.
            map_of (posts ! i) ''id'' = Some (Atom (AStr (py_str (attr_of (medias ! i) ''id''))))"
  proof (intro allI impI)
    fix i assume "i < length medias"
    from list_all2_nthD[OF la this] obtain w2 evs2 w3 where
      "process_media P self username (medias ! i) w2 = (Inr (posts ! i), evs2, w3)" by blast
    then show "map_of (posts ! i) ''id'' = Some (Atom (AStr (py_str (attr_of (medias ! i) ''id''))))"
      by (rule process_media_id)
  qed
  have r: "result_of (get_user_posts P self username (Some limit) w) = Inr posts"
    using get_user_posts_of_body[OF assms] by (simp add: result_of_def)
  show ?thesis using u m len ids r by blast
qed

theorem get_user_posts_one_post_per_item_witness:
  "\<exists>posts evs w'. get_user_posts_body demo_platform demo_self ''alice'' 100 0 = (Inr posts, evs, w')
     \<and> length posts = 2
     \<and> map_of (posts ! 0) ''id'' = Some (Atom (AStr ''1_42''))
     \<and> map_of (posts ! 1) ''id'' = Some (Atom (AStr ''2_42''))"
proof -
  let ?t = "get_user_posts_body demo_platform demo_self ''alice'' 100 0"
  have s: "succeeded (result_of ?t)" by code_simp
  then obtain posts where "result_of ?t = Inr posts"
    by (cases "result_of ?t") (auto simp: succeeded_def)
  then have run: "?t = (Inr posts, events_of ?t, world_of ?t)"
    using io_triple[of ?t] by simp
  from get_user_posts_one_post_per_item[OF run] obtain user_id w0 medias w1 where
    m: "user_medias demo_platform user_id 100 w0 = (Inr medias, w1)"
    and len: "length posts = length medias"
    and ids: "\<forall>i<length medias.
            map_of (posts ! i) ''id'' = Some (Atom (AStr (py_str (attr_of (medias ! i) ''id''))))"
    by blast
  from m have medias: "medias = [demo_photo, demo_video]" by (simp add: demo_platform_def)
  have i0: "py_str (attr_of demo_photo ''id'') = ''1_42''" by code_simp
  have i1: "py_str (attr_of demo_video ''id'') = ''2_42''" by code_simp
  have "length posts = 2" using len medias by simp
  moreover have "map_of (posts ! 0) ''id'' = Some (Atom (AStr ''1_42''))"
    using ids[THEN spec, of 0] medias i0 by simp
  moreover have "map_of (posts ! 1) ''id'' = Some (Atom (AStr ''2_42''))"
    using ids[THEN spec, of 1] medias i1 by simp
  ultimately show ?thesis using run by blast
qed

lemma get_user_posts_one_post_per_item_aux:
  assumes "get_user_posts_body P self username limit w = (Inr posts, evs, w')"
    "user_id_from_username P username w = (Inr user_id, w0)"
    "user_medias P user_id limit w0 = (Inr medias, w1)"
  shows "length posts = length medias"
proof -
  from get_user_posts_body_returned[OF assms(1)] obtain user_id' w0' medias' w1' evs1 where
    u: "user_id_from_username P username w = (Inr user_id', w0')"
    and m: "user_medias P user_id' limit w0' = (Inr medias', w1')"
    and l: "posts_loop P self username medias' [] w1' = (Inr posts, evs1, w')"
    by blast
  from u assms(2) have "user_id' = user_id" "w0' = w0" by simp_all
  with m assms(3) have mm: "medias' = medias" by simp
  from posts_loop_returned[OF l] have
    "list_all2 (\<lambda>media post. \<exists>w0 evs0 w1. process_media P self username media w0 = (Inr post, evs0, w1))
          medias' posts"
    by simp
  then show ?thesis using mm by (simp add: list_all2_lengthD)
qed

lemma get_user_posts_run:
  "get_user_posts P self username limit w
     = (case get_user_posts_body P self username (case limit of None \<Rightarrow> 100 | Some l \<Rightarrow> l) w of
          (Inl e, evs, w1) \<Rightarrow>
            (Inr [], EvEnter ''get_user_posts'' [username] # evs
               @ [EvLog Error (''Failed to get posts for '' @ username @ '': '' @ exn_str e)], w1)
        | (Inr posts, evs, w1) \<Rightarrow> (Inr posts, EvEnter ''get_user_posts'' [username] # evs, w1))"
  by (simp add: get_user_posts_def io_try_def io_bind_def split: prod.splits sum.splits)

lemma get_user_posts_body_request:
  assumes "user_id_from_username P username w = (Inr user_id, w0)"
  shows "\<exists>b rest. events_of (get_user_posts_body P self username limit w)
           = EvUserIdFromUsername username True # EvUserMedias user_id limit b # rest"
proof -
  obtain rm w1 where m: "user_medias P user_id limit w0 = (rm, w1)"
    by (cases "user_medias P user_id limit w0") auto
  show ?thesis
  proof (cases rm)
    case (Inl e)
    then show ?thesis using assms m
      by (auto simp: get_user_posts_body_def io_bind_def ext_call_def events_of_def succeeded_def)
  next
    case (Inr medias)
    obtain r3 evs3 w3 where l: "posts_loop P self username medias [] w1 = (r3, evs3, w3)"
      by (cases "posts_loop P self username medias [] w1") auto
    show ?thesis using assms m Inr l
      by (cases r3) (auto simp: get_user_posts_body_def io_bind_def ext_call_def events_of_def succeeded_def)
  qed
qed

text \<open>
  C3. \<^verbatim>\<open>get_user_posts\<close> always returns a list. When its \<^verbatim>\<open>try\<close> block raises, at
  whatever point, the list is empty: the dictionaries built before the exception are
  not returned. So when the client returned a list of media items, the result is either
  empty or has one dictionary for every item, never a proper part. A call that leaves
  \<^verbatim>\<open>limit\<close> out is the call with limit 100, and asks \<^verbatim>\<open>user_medias\<close> for 100 items.
\<close>

theorem get_user_posts_all_or_nothing:
  "(\<exists>posts. result_of (get_user_posts P self username limit w) = Inr posts)
   \<and> ((\<exists>e. result_of (get_user_posts_body P self username (case limit of None \<Rightarrow> 100 | Some l \<Rightarrow> l) w) = Inl e)
        \<longrightarrow> result_of (get_user_posts P self username limit w) = Inr [])
   \<and> (\<forall>user_id w0 medias w1.
         user_id_from_username P username w = (Inr user_id, w0)
         \<and> user_medias P user_id (case limit of None \<Rightarrow> 100 | Some l \<Rightarrow> l) w0 = (Inr medias, w1)
         \<longrightarrow> (\<exists>posts. result_of (get_user_posts P self username limit w) = Inr posts
                \<and> (posts = [] \<or> length posts = length medias)))
   \<and> get_user_posts P self username None w = get_user_posts P self username (Some 100) w
   \<and> (\<forall>user_id w0. user_id_from_username P username w = (Inr user_id, w0) \<longrightarrow>
         (\<exists>b rest. events_of (get_user_posts P self username None w)
             = EvEnter ''get_user_posts'' [username] # EvUserIdFromUsername username True
               # EvUserMedias user_id 100 b # rest))"
proof -
  let ?lim = "case limit of None \<Rightarrow> 100 | Some l \<Rightarrow> l"
  obtain rb evs wb where b: "get_user_posts_body P self username ?lim w = (rb, evs, wb)"
    by (cases "get_user_posts_body P self username ?lim w") auto
  have res: "result_of (get_user_posts P self username limit w)
               = (case rb of Inl e \<Rightarrow> Inr [] | Inr posts \<Rightarrow> Inr posts)"
    unfolding get_user_posts_run b by (cases rb) (simp_all add: result_of_def)
  have A: "\<exists>posts. result_of (get_user_posts P self username limit w) = Inr posts"
    unfolding res by (cases rb) simp_all
  have B: "(\<exists>e. result_of (get_user_posts_body P self username ?lim w) = Inl e)
        \<longrightarrow> result_of (get_user_posts P self username limit w) = Inr []"
    unfolding res b by (cases rb) (simp_all add: result_of_def)
  have C: "\<forall>user_id w0 medias w1.
         user_id_from_username P username w = (Inr user_id, w0)
         \<and> user_medias P user_id ?lim w0 = (Inr medias, w1)
         \<longrightarrow> (\<exists>posts. result_of (get_user_posts P self username limit w) = Inr posts
                \<and> (posts = [] \<or> length posts = length medias))"
  proof (intro allI impI, elim conjE)
    fix user_id w0 medias w1
    assume u: "user_id_from_username P username w = (Inr user_id, w0)"
      and m: "user_medias P user_id ?lim w0 = (Inr medias, w1)"
    show "\<exists>posts. result_of (get_user_posts P self username limit w) = Inr posts
                \<and> (posts = [] \<or> length posts = length medias)"
    proof (cases rb)
      case (Inl e)
      then show ?thesis unfolding res by simp
    next
      case (Inr posts)
      from get_user_posts_one_post_per_item_aux[OF b[unfolded Inr]] u m
      have "length posts = length medias" by simp
      then show ?thesis unfolding res Inr by simp
    qed
  qed
  have D: "get_user_posts P self username None w = get_user_posts P self username (Some 100) w"
    by (simp add: get_user_posts_def)
  have E: "\<forall>user_id w0. user_id_from_username P username w = (Inr user_id, w0) \<longrightarrow>
         (\<exists>b rest. events_of (get_user_posts P self username None w)
             = EvEnter ''get_user_posts'' [username] # EvUserIdFromUsername username True
               # EvUserMedias user_id 100 b # rest)"
  proof (intro allI impI)
    fix user_id w0
    assume u: "user_id_from_username P username w = (Inr user_id, w0)"
    from get_user_posts_body_request[OF u, of self 100] obtain b0 rest where
      e: "events_of (get_user_posts_body P self username 100 w)
           = EvUserIdFromUsername username True # EvUserMedias user_id 100 b0 # rest"
      by blast
    obtain r2 evs2 w2 where b2: "get_user_posts_body P self username 100 w = (r2, evs2, w2)"
      by (cases "get_user_posts_body P self username 100 w") auto
    have "\<exists>rest'. events_of (get_user_posts P self username None w)
             = EvEnter ''get_user_posts'' [username] # evs2 @ rest'"
      unfolding get_user_posts_run using b2 by (cases r2) (simp_all add: events_of_def)
    then show "\<exists>b rest. events_of (get_user_posts P self username None w)
             = EvEnter ''get_user_posts'' [username] # EvUserIdFromUsername username True
               # EvUserMedias user_id 100 b # rest"
      using e b2 by (auto simp: events_of_def)
  qed
  show ?thesis by (intro conjI A B C D E)
qed

theorem get_user_posts_all_or_nothing_witness:
  "(\<exists>e. result_of (get_user_posts_body demo_platform_broken_item demo_self ''alice'' 100 0) = Inl e)
   \<and> result_of (get_user_posts demo_platform_broken_item demo_self ''alice'' None 0) = Inr []
   \<and> EvDownloadMedia ''http://m/1.jpg'' ''alice_1_42.jpg'' True
        \<in> set (events_of (get_user_posts demo_platform_broken_item demo_self ''alice'' None 0))
   \<and> user_id_from_username demo_platform ''alice'' 0 = (Inr (AStr ''42''), 0)
   \<and> user_medias demo_platform (AStr ''42'') 100 0 = (Inr [demo_photo, demo_video], 0)
   \<and> (\<exists>posts. result_of (get_user_posts demo_platform demo_self ''alice'' None 0) = Inr posts
         \<and> length posts = 2)
   \<and> (\<exists>b rest. events_of (get_user_posts demo_platform demo_self ''alice'' None 0)
         = EvEnter ''get_user_posts'' [''alice''] # EvUserIdFromUsername ''alice'' True
           # EvUserMedias (AStr ''42'') 100 b # rest)"
proof -
  note T1 = get_user_posts_all_or_nothing[of demo_platform_broken_item demo_self "''alice''" None 0,
      unfolded option.case]
  note T2 = get_user_posts_all_or_nothing[of demo_platform demo_self "''alice''" None 0,
      unfolded option.case]
  have b1: "result_of (get_user_posts_body demo_platform_broken_item demo_self ''alice'' 100 0)
             = Inl (Exn AttributeError ''like_count'')"
    by code_simp
  then have b1': "\<exists>e. result_of (get_user_posts_body demo_platform_broken_item demo_self ''alice'' 100 0) = Inl e"
    by blast
  have r1: "result_of (get_user_posts demo_platform_broken_item demo_self ''alice'' None 0) = Inr []"
    using T1[THEN conjunct2, THEN conjunct1] b1' by (rule mp)
  have d1: "EvDownloadMedia ''http://m/1.jpg'' ''alice_1_42.jpg'' True
        \<in> set (events_of (get_user_posts demo_platform_broken_item demo_self ''alice'' None 0))"
    by code_simp
  have u: "user_id_from_username demo_platform ''alice'' 0 = (Inr (AStr ''42''), 0)"
    by (simp add: demo_platform_def)
  have m: "user_medias demo_platform (AStr ''42'') 100 0 = (Inr [demo_photo, demo_video], 0)"
    by (simp add: demo_platform_def)
  from T2[THEN conjunct2, THEN conjunct2, THEN conjunct1, THEN spec, THEN spec, THEN spec, THEN spec,
      THEN mp, OF conjI[OF u m]]
  obtain posts where p: "result_of (get_user_posts demo_platform demo_self ''alice'' None 0) = Inr posts"
    and alt: "posts = [] \<or> length posts = length [demo_photo, demo_video]"
    by blast
  have ne: "result_of (get_user_posts demo_platform demo_self ''alice'' None 0) \<noteq> Inr []"
    by code_simp
  with p alt have len: "length posts = 2" by auto
  from T2[THEN conjunct2, THEN conjunct2, THEN conjunct2, THEN conjunct2, THEN spec, THEN spec,
      THEN mp, OF u]
  have e: "\<exists>b rest. events_of (get_user_posts demo_platform demo_self ''alice'' None 0)
         = EvEnter ''get_user_posts'' [''alice''] # EvUserIdFromUsername ''alice'' True
           # EvUserMedias (AStr ''42'') 100 b # rest" .
  have pl: "\<exists>posts. result_of (get_user_posts demo_platform demo_self ''alice'' None 0) = Inr posts
         \<and> length posts = 2"
    using p len by blast
  show ?thesis by (intro conjI b1' r1 d1 u m pl e)
qed

subsection \<open>The events of \<^verbatim>\<open>get_user_posts\<close>, turn by turn\<close>

lemma process_media_starts_with_sleep:
  assumes "process_media P self username media w = (Inr post, evs, w')"
  shows "\<exists>rest. evs = EvSleep (of_int (request_delay self)) # rest \<and> filter is_sleep rest = []"
proof -
  from process_media_returned[OF assms] obtain pd where pd: "post_data_of media = Inr pd"
    and d: "can_sleep (of_int (request_delay self))" by blast
  obtain pd1 evs1 w1 where p: "photo_step P self username media pd w = (Inr pd1, evs1, w1)"
    using photo_step_returns[of P self username media pd w] by blast
  obtain pd2 evs2 w2 where v: "video_step P self username media pd1 w1 = (Inr pd2, evs2, w2)"
    using video_step_returns[of P self username media pd1 w1] by blast
  have "process_media P self username media w
          = (Inr pd2, EvSleep (of_int (request_delay self)) # evs1 @ evs2, w2)"
    using process_media_unfold[OF d pd p v] .
  with assms have evs: "evs = EvSleep (of_int (request_delay self)) # (evs1 @ evs2)" by simp
  have "filter is_sleep (evs1 @ evs2) = []"
    using photo_step_no_sleep[OF p] video_step_no_sleep[OF v] by simp
  with evs show ?thesis by blast
qed

lemma posts_loop_turns:
  assumes "posts_loop P self username medias acc w = (Inr posts, evs, w')"
  shows "\<exists>turns. posts = acc @ map fst turns \<and> evs = concat (map snd turns)
     \<and> list_all2 (\<lambda>media turn. \<exists>w0 w1. process_media P self username media w0
                                         = (Inr (fst turn), snd turn, w1)) medias turns"
  using assms
proof (induction medias arbitrary: acc w evs)
  case Nil
  then show ?case by simp
next
  case (Cons media medias)
  obtain r1 evs1 w1 where pm: "process_media P self username media w = (r1, evs1, w1)"
    by (cases "process_media P self username media w") auto
  show ?case
  proof (cases r1)
    case (Inl e)
    with Cons.prems pm show ?thesis by simp
  next
    case (Inr post)
    obtain r2 evs2 w2 where lp: "posts_loop P self username medias (acc @ [post]) w1 = (r2, evs2, w2)"
      by (cases "posts_loop P self username medias (acc @ [post]) w1") auto
    from Cons.prems pm Inr lp have r2: "r2 = Inr posts" and evs: "evs = evs1 @ evs2" and w2: "w2 = w'"
      by simp_all
    from Cons.IH[OF lp[unfolded r2 w2]] obtain turns where
      it: "posts = (acc @ [post]) @ map fst turns" "evs2 = concat (map snd turns)"
        "list_all2 (\<lambda>media turn. \<exists>w0 w1. process_media P self username media w0
                                         = (Inr (fst turn), snd turn, w1)) medias turns"
      by blast
    let ?turns = "(post, evs1) # turns"
    have "posts = acc @ map fst ?turns" using it(1) by simp
    moreover have "evs = concat (map snd ?turns)" using evs it(2) by simp
    moreover have "list_all2 (\<lambda>media turn. \<exists>w0 w1. process_media P self username media w0
                                         = (Inr (fst turn), snd turn, w1)) (media # medias) ?turns"
      using it(3) pm Inr by auto
    ultimately show ?thesis by blast
  qed
qed

lemma posts_loop_turns_raised:
  assumes "posts_loop P self username medias acc w = (Inl e, evs, w')"
  shows "\<exists>turns tail. length turns < length medias \<and> evs = concat (map snd turns) @ tail
     \<and> list_all2 (\<lambda>media turn. \<exists>w0 w1. process_media P self username media w0
                                         = (Inr (fst turn), snd turn, w1))
          (take (length turns) medias) turns
     \<and> (\<exists>w0 w1. process_media P self username (medias ! length turns) w0 = (Inl e, tail, w1))"
  using assms
proof (induction medias arbitrary: acc w evs)
  case Nil
  then show ?case by simp
next
  case (Cons media medias)
  obtain r1 evs1 w1 where pm: "process_media P self username media w = (r1, evs1, w1)"
    by (cases "process_media P self username media w") auto
  show ?case
  proof (cases r1)
    case (Inl e1)
    with Cons.prems pm have "e1 = e" "evs = evs1" by simp_all
    with pm Inl have "process_media P self username ((media # medias) ! 0) w = (Inl e, evs, w1)" by simp
    then have "length ([] :: (dict \<times> event list) list) < length (media # medias)
        \<and> evs = concat (map snd ([] :: (dict \<times> event list) list)) @ evs
        \<and> list_all2 (\<lambda>media turn. \<exists>w0 w1. process_media P self username media w0
                                         = (Inr (fst turn), snd turn, w1))
             (take (length ([] :: (dict \<times> event list) list)) (media # medias)) []
        \<and> (\<exists>w0 w1. process_media P self username ((media # medias) ! length ([] :: (dict \<times> event list) list)) w0
                      = (Inl e, evs, w1))"
      by auto
    then show ?thesis by blast
  next
    case (Inr post)
    obtain r2 evs2 w2 where lp: "posts_loop P self username medias (acc @ [post]) w1 = (r2, evs2, w2)"
      by (cases "posts_loop P self username medias (acc @ [post]) w1") auto
    from Cons.prems pm Inr lp have r2: "r2 = Inl e" and evs: "evs = evs1 @ evs2" and w2: "w2 = w'"
      by simp_all
    from Cons.IH[OF lp[unfolded r2 w2]] obtain turns tail where
      it: "length turns < length medias" "evs2 = concat (map snd turns) @ tail"
        "list_all2 (\<lambda>media turn. \<exists>w0 w1. process_media P self username media w0
                                         = (Inr (fst turn), snd turn, w1))
          (take (length turns) medias) turns"
        "\<exists>w0 w1. process_media P self username (medias ! length turns) w0 = (Inl e, tail, w1)"
      by blast
    let ?turns = "(post, evs1) # turns"
    have "length ?turns < length (media # medias)" using it(1) by simp
    moreover have "evs = concat (map snd ?turns) @ tail" using evs it(2) by simp
    moreover have "list_all2 (\<lambda>media turn. \<exists>w0 w1. process_media P self username media w0
                                         = (Inr (fst turn), snd turn, w1))
          (take (length ?turns) (media # medias)) ?turns"
      using it(3) pm Inr by auto
    moreover have "\<exists>w0 w1. process_media P self username ((media # medias) ! length ?turns) w0
                      = (Inl e, tail, w1)"
      using it(4) by simp
    ultimately show ?thesis by blast
  qed
qed

lemma get_user_posts_body_unfold:
  assumes "user_id_from_username P username w = (Inr user_id, w0)"
      and "user_medias P user_id limit w0 = (Inr medias, w1)"
  shows "get_user_posts_body P self username limit w
     = (case posts_loop P self username medias [] w1 of
          (Inl e, evs, w2) \<Rightarrow>
            (Inl e, EvUserIdFromUsername username True # EvUserMedias user_id limit True # evs, w2)
        | (Inr posts, evs, w2) \<Rightarrow>
            (Inr posts, EvUserIdFromUsername username True # EvUserMedias user_id limit True # evs
               @ [EvLog Info (''Retrieved '' @ str_nat (length posts) @ '' posts for '' @ username)], w2))"
  using assms
  by (simp add: get_user_posts_body_def io_bind_def ext_call_def succeeded_def
      split: prod.splits sum.splits)

subsection \<open>Which downloads \<^verbatim>\<open>get_user_posts\<close> attempts\<close>

lemma turn_facts:
  assumes "process_media P self username media w0 = (Inr post, tevs, w1)"
  shows "(\<exists>rest. tevs = EvSleep (of_int (request_delay self)) # rest \<and> filter is_sleep rest = [])
       \<and> (\<exists>b. filter is_download tevs =
           (if toggle_on self ''DOWNLOAD_PHOTOS'' \<and> py_eq_int (attr_of media ''media_type'') 1
            then [EvDownloadMedia (py_str (attr_of media ''thumbnail_url''))
                    (username @ ''_'' @ py_str (attr_of media ''id'') @ ''.jpg'') b]
            else if toggle_on self ''DOWNLOAD_VIDEOS'' \<and> py_eq_int (attr_of media ''media_type'') 2
                    \<and> hasattr media ''video_url''
            then [EvDownloadMedia (py_str (attr_of media ''video_url''))
                    (username @ ''_'' @ py_str (attr_of media ''id'') @ ''.mp4'') b]
            else []))"
  using process_media_starts_with_sleep[OF assms] process_media_downloads_due[OF assms]
  by (intro conjI) (erule conjunct1 | assumption)+

text \<open>
  C4. Let the client return the list \<open>medias\<close> to \<^verbatim>\<open>get_user_posts\<close>. The events of the
  call are its entry, the two client calls, then one segment per turn of the loop, and
  a log record. The segment of a completed turn begins with the turn's
  \<^verbatim>\<open>time.sleep\<close> and holds no other; its \<^verbatim>\<open>download_media\<close> calls are exactly these: one
  call on \<^verbatim>\<open>str(media.thumbnail_url)\<close> with file name \<^verbatim>\<open>{username}_{media.id}.jpg\<close> when
  \<^verbatim>\<open>DOWNLOAD_PHOTOS\<close> is on and \<^verbatim>\<open>media.media_type == 1\<close>; otherwise one call on
  \<^verbatim>\<open>str(media.video_url)\<close> with file name \<^verbatim>\<open>{username}_{media.id}.mp4\<close> when
  \<^verbatim>\<open>DOWNLOAD_VIDEOS\<close> is on, \<^verbatim>\<open>media.media_type == 2\<close> and the item has the attribute
  \<^verbatim>\<open>video_url\<close>; otherwise none. When the \<^verbatim>\<open>try\<close> block completes there is a segment
  for every item. When it raises, the segments are those of the items before the one
  whose turn raised, and that turn (the sleep refused, or an attribute missing while
  \<^verbatim>\<open>post_data\<close> is built) called \<^verbatim>\<open>download_media\<close> not at all. A toggle is on when its
  variable is unset, or set to one of the sixteen spellings of \<^verbatim>\<open>true\<close> in upper and
  lower case.
\<close>

theorem get_user_posts_downloads_due:
  assumes "user_id_from_username P username w = (Inr user_id, w0)"
      and "user_medias P user_id limit w0 = (Inr medias, w1)"
  shows "\<exists>evss tail lvl msg.
      events_of (get_user_posts P self username (Some limit) w)
        = EvEnter ''get_user_posts'' [username] # EvUserIdFromUsername username True
          # EvUserMedias user_id limit True # concat evss @ tail @ [EvLog lvl msg]
      \<and> filter is_download tail = []
      \<and> (if succeeded (result_of (get_user_posts_body P self username limit w))
          then length evss = length medias \<and> tail = []
          else length evss < length medias
             \<and> (\<exists>e w2 w3. process_media P self username (medias ! length evss) w2 = (Inl e, tail, w3)))
      \<and> (\<forall>i<length evss.
           (\<exists>rest. evss ! i = EvSleep (of_int (request_delay self)) # rest \<and> filter is_sleep rest = [])
           \<and> (\<exists>b. filter is_download (evss ! i) =
                (if toggle_on self ''DOWNLOAD_PHOTOS'' \<and> py_eq_int (attr_of (medias ! i) ''media_type'') 1
                 then [EvDownloadMedia (py_str (attr_of (medias ! i) ''thumbnail_url''))
                         (username @ ''_'' @ py_str (attr_of (medias ! i) ''id'') @ ''.jpg'') b]
                 else if toggle_on self ''DOWNLOAD_VIDEOS'' \<and> py_eq_int (attr_of (medias ! i) ''media_type'') 2
                         \<and> hasattr (medias ! i) ''video_url''
                 then [EvDownloadMedia (py_str (attr_of (medias ! i) ''video_url''))
                         (username @ ''_'' @ py_str (attr_of (medias ! i) ''id'') @ ''.mp4'') b]
                 else [])))
      \<and> (\<forall>name. toggle_on self name =
             (case os_environ self name of
                None \<Rightarrow> True
              | Some v \<Rightarrow> \<exists>a b c d. v = [a, b, c, d] \<and> (a = CHR ''t'' \<or> a = CHR ''T'')
                    \<and> (b = CHR ''r'' \<or> b = CHR ''R'') \<and> (c = CHR ''u'' \<or> c = CHR ''U'')
                    \<and> (d = CHR ''e'' \<or> d = CHR ''E'')))"
proof -
  let ?TURN = "\<lambda>media turn. \<exists>w0 w1. process_media P self username media w0
                                         = (Inr (fst turn), snd turn, w1)"
  let ?DUE = "\<lambda>media tevs.
       (\<exists>rest. tevs = EvSleep (of_int (request_delay self)) # rest \<and> filter is_sleep rest = [])
       \<and> (\<exists>b. filter is_download tevs =
           (if toggle_on self ''DOWNLOAD_PHOTOS'' \<and> py_eq_int (attr_of media ''media_type'') 1
            then [EvDownloadMedia (py_str (attr_of media ''thumbnail_url''))
                    (username @ ''_'' @ py_str (attr_of media ''id'') @ ''.jpg'') b]
            else if toggle_on self ''DOWNLOAD_VIDEOS'' \<and> py_eq_int (attr_of media ''media_type'') 2
                    \<and> hasattr media ''video_url''
            then [EvDownloadMedia (py_str (attr_of media ''video_url''))
                    (username @ ''_'' @ py_str (attr_of media ''id'') @ ''.mp4'') b]
            else []))"
  have tog: "\<forall>name. toggle_on self name =
             (case os_environ self name of
                None \<Rightarrow> True
              | Some v \<Rightarrow> \<exists>a b c d. v = [a, b, c, d] \<and> (a = CHR ''t'' \<or> a = CHR ''T'')
                    \<and> (b = CHR ''r'' \<or> b = CHR ''R'') \<and> (c = CHR ''u'' \<or> c = CHR ''U'')
                    \<and> (d = CHR ''e'' \<or> d = CHR ''E''))"
    using toggle_on_iff[of self] by (intro allI)
  note bu = get_user_posts_body_unfold[OF assms, of self]
  obtain r3 evs3 w3 where l: "posts_loop P self username medias [] w1 = (r3, evs3, w3)"
    by (cases "posts_loop P self username medias [] w1") auto
  show ?thesis
  proof (cases r3)
    case (Inr posts)
    let ?msg = "''Retrieved '' @ str_nat (length posts) @ '' posts for '' @ username"
    have body: "get_user_posts_body P self username limit w
        = (Inr posts, EvUserIdFromUsername username True # EvUserMedias user_id limit True # evs3
               @ [EvLog Info ?msg], w3)"
      unfolding bu l Inr by simp
    from posts_loop_turns[OF l[unfolded Inr]] obtain turns where
      evs3: "evs3 = concat (map snd turns)" and la: "list_all2 ?TURN medias turns" by blast
    let ?evss = "map snd turns"
    have len: "length ?evss = length medias" using la by (simp add: list_all2_lengthD)
    have ev: "events_of (get_user_posts P self username (Some limit) w)
        = EvEnter ''get_user_posts'' [username] # EvUserIdFromUsername username True
          # EvUserMedias user_id limit True # concat ?evss @ [] @ [EvLog Info ?msg]"
      using get_user_posts_of_body[OF body] evs3 by (simp add: events_of_def)
    have suc: "succeeded (result_of (get_user_posts_body P self username limit w))"
      unfolding body by (simp add: succeeded_def result_of_def)
    have due: "\<forall>i<length ?evss. ?DUE (medias ! i) (?evss ! i)"
    proof (intro allI impI)
      fix i assume i: "i < length ?evss"
      then have i': "i < length medias" using len by simp
      from list_all2_nthD[OF la i'] obtain w4 w5 where
        "process_media P self username (medias ! i) w4 = (Inr (fst (turns ! i)), snd (turns ! i), w5)"
        by blast
      from turn_facts[OF this] show "?DUE (medias ! i) (?evss ! i)" using i by simp
    qed
    have br: "if succeeded (result_of (get_user_posts_body P self username limit w))
          then length ?evss = length medias \<and> [] = ([] :: event list)
          else length ?evss < length medias
             \<and> (\<exists>e w2 w3. process_media P self username (medias ! length ?evss) w2 = (Inl e, [], w3))"
      unfolding if_P[OF suc] using len by simp
    have fd: "filter is_download ([] :: event list) = []" by simp
    show ?thesis
      by (rule exI[of _ ?evss], rule exI[of _ "[]"], rule exI[of _ Info], rule exI[of _ ?msg])
         (intro conjI ev fd br due tog)
  next
    case (Inl e)
    let ?msg = "''Failed to get posts for '' @ username @ '': '' @ exn_str e"
    have body: "get_user_posts_body P self username limit w
        = (Inl e, EvUserIdFromUsername username True # EvUserMedias user_id limit True # evs3, w3)"
      unfolding bu l Inl by simp
    from posts_loop_turns_raised[OF l[unfolded Inl]] obtain turns tail where
      lt: "length turns < length medias" and evs3: "evs3 = concat (map snd turns) @ tail"
      and la: "list_all2 ?TURN (take (length turns) medias) turns"
      and lastturn: "\<exists>w0 w1. process_media P self username (medias ! length turns) w0 = (Inl e, tail, w1)"
      by blast
    let ?evss = "map snd turns"
    have ev: "events_of (get_user_posts P self username (Some limit) w)
        = EvEnter ''get_user_posts'' [username] # EvUserIdFromUsername username True
          # EvUserMedias user_id limit True # concat ?evss @ tail @ [EvLog Error ?msg]"
      unfolding get_user_posts_run using body evs3 by (simp add: events_of_def)
    have nsuc: "\<not> succeeded (result_of (get_user_posts_body P self username limit w))"
      unfolding body by (simp add: succeeded_def result_of_def)
    from lastturn obtain w4 w5 where lt2: "process_media P self username (medias ! length turns) w4 = (Inl e, tail, w5)"
      by blast
    have fd: "filter is_download tail = []" using process_media_raised[OF lt2] by (rule conjunct1)
    have br: "if succeeded (result_of (get_user_posts_body P self username limit w))
          then length ?evss = length medias \<and> tail = []
          else length ?evss < length medias
             \<and> (\<exists>e w2 w3. process_media P self username (medias ! length ?evss) w2 = (Inl e, tail, w3))"
      unfolding if_not_P[OF nsuc] using lt lt2 by auto
    have due: "\<forall>i<length ?evss. ?DUE (medias ! i) (?evss ! i)"
    proof (intro allI impI)
      fix i assume i: "i < length ?evss"
      then have i': "i < length (take (length turns) medias)" using lt by simp
      from list_all2_nthD[OF la i'] obtain w6 w7 where
        "process_media P self username (take (length turns) medias ! i) w6
           = (Inr (fst (turns ! i)), snd (turns ! i), w7)"
        by blast
      moreover have "take (length turns) medias ! i = medias ! i" using i by simp
      ultimately have "process_media P self username (medias ! i) w6
           = (Inr (fst (turns ! i)), snd (turns ! i), w7)" by simp
      from turn_facts[OF this] show "?DUE (medias ! i) (?evss ! i)" using i by simp
    qed
    show ?thesis
      by (rule exI[of _ ?evss], rule exI[of _ tail], rule exI[of _ Error], rule exI[of _ ?msg])
         (intro conjI ev fd br due tog)
  qed
qed

theorem get_user_posts_downloads_due_witness:
  "user_id_from_username demo_platform ''alice'' 0 = (Inr (AStr ''42''), 0)
   \<and> user_medias demo_platform (AStr ''42'') 100 0 = (Inr [demo_photo, demo_video], 0)
   \<and> (\<exists>evss lvl msg.
        events_of (get_user_posts demo_platform demo_self ''alice'' (Some 100) 0)
          = EvEnter ''get_user_posts'' [''alice''] # EvUserIdFromUsername ''alice'' True
            # EvUserMedias (AStr ''42'') 100 True # concat evss @ [] @ [EvLog lvl msg]
        \<and> length evss = 2
        \<and> (\<exists>b. filter is_download (evss ! 0) = [EvDownloadMedia ''http://m/1.jpg'' ''alice_1_42.jpg'' b])
        \<and> (\<exists>b. filter is_download (evss ! 1) = [EvDownloadMedia ''http://m/2.mp4'' ''alice_2_42.mp4'' b]))"
proof -
  have u: "user_id_from_username demo_platform ''alice'' 0 = (Inr (AStr ''42''), 0)"
    by (simp add: demo_platform_def)
  have m: "user_medias demo_platform (AStr ''42'') 100 0 = (Inr [demo_photo, demo_video], 0)"
    by (simp add: demo_platform_def)
  have suc: "succeeded (result_of (get_user_posts_body demo_platform demo_self ''alice'' 100 0))"
    by code_simp
  from get_user_posts_downloads_due[OF u m, of demo_self, unfolded if_P[OF suc]]
  obtain evss tail lvl msg where
    ev: "events_of (get_user_posts demo_platform demo_self ''alice'' (Some 100) 0)
          = EvEnter ''get_user_posts'' [''alice''] # EvUserIdFromUsername ''alice'' True
            # EvUserMedias (AStr ''42'') 100 True # concat evss @ tail @ [EvLog lvl msg]"
    and len: "length evss = length [demo_photo, demo_video]" and tail: "tail = []"
    and due: "\<forall>i<length evss.
           (\<exists>rest. evss ! i = EvSleep (of_int (request_delay demo_self)) # rest \<and> filter is_sleep rest = [])
           \<and> (\<exists>b. filter is_download (evss ! i) =
                (if toggle_on demo_self ''DOWNLOAD_PHOTOS''
                      \<and> py_eq_int (attr_of ([demo_photo, demo_video] ! i) ''media_type'') 1
                 then [EvDownloadMedia (py_str (attr_of ([demo_photo, demo_video] ! i) ''thumbnail_url''))
                         (''alice'' @ ''_'' @ py_str (attr_of ([demo_photo, demo_video] ! i) ''id'') @ ''.jpg'') b]
                 else if toggle_on demo_self ''DOWNLOAD_VIDEOS''
                         \<and> py_eq_int (attr_of ([demo_photo, demo_video] ! i) ''media_type'') 2
                         \<and> hasattr ([demo_photo, demo_video] ! i) ''video_url''
                 then [EvDownloadMedia (py_str (attr_of ([demo_photo, demo_video] ! i) ''video_url''))
                         (''alice'' @ ''_'' @ py_str (attr_of ([demo_photo, demo_video] ! i) ''id'') @ ''.mp4'') b]
                 else []))"
    by blast
  have len2: "length evss = 2" using len by simp
  have c0: "toggle_on demo_self ''DOWNLOAD_PHOTOS''
              \<and> py_eq_int (attr_of ([demo_photo, demo_video] ! 0) ''media_type'') 1"
    by code_simp
  have u0: "py_str (attr_of ([demo_photo, demo_video] ! 0) ''thumbnail_url'') = ''http://m/1.jpg''"
    by code_simp
  have f0: "''alice'' @ ''_'' @ py_str (attr_of ([demo_photo, demo_video] ! 0) ''id'') @ ''.jpg''
              = ''alice_1_42.jpg''"
    by code_simp
  have n1: "\<not> (toggle_on demo_self ''DOWNLOAD_PHOTOS''
              \<and> py_eq_int (attr_of ([demo_photo, demo_video] ! 1) ''media_type'') 1)"
    by code_simp
  have c1: "toggle_on demo_self ''DOWNLOAD_VIDEOS''
              \<and> py_eq_int (attr_of ([demo_photo, demo_video] ! 1) ''media_type'') 2
              \<and> hasattr ([demo_photo, demo_video] ! 1) ''video_url''"
    by code_simp
  have u1: "py_str (attr_of ([demo_photo, demo_video] ! 1) ''video_url'') = ''http://m/2.mp4''"
    by code_simp
  have f1: "''alice'' @ ''_'' @ py_str (attr_of ([demo_photo, demo_video] ! 1) ''id'') @ ''.mp4''
              = ''alice_2_42.mp4''"
    by code_simp
  have i0: "0 < length evss" and i1: "1 < length evss" using len2 by simp_all
  have d0: "\<exists>b. filter is_download (evss ! 0) = [EvDownloadMedia ''http://m/1.jpg'' ''alice_1_42.jpg'' b]"
    using due[THEN spec, THEN mp, OF i0, THEN conjunct2] unfolding if_P[OF c0] u0 f0 .
  have d1: "\<exists>b. filter is_download (evss ! 1) = [EvDownloadMedia ''http://m/2.mp4'' ''alice_2_42.mp4'' b]"
    using due[THEN spec, THEN mp, OF i1, THEN conjunct2] unfolding if_not_P[OF n1] if_P[OF c1] u1 f1 .
  have "\<exists>evss lvl msg.
        events_of (get_user_posts demo_platform demo_self ''alice'' (Some 100) 0)
          = EvEnter ''get_user_posts'' [''alice''] # EvUserIdFromUsername ''alice'' True
            # EvUserMedias (AStr ''42'') 100 True # concat evss @ [] @ [EvLog lvl msg]
        \<and> length evss = 2
        \<and> (\<exists>b. filter is_download (evss ! 0) = [EvDownloadMedia ''http://m/1.jpg'' ''alice_1_42.jpg'' b])
        \<and> (\<exists>b. filter is_download (evss ! 1) = [EvDownloadMedia ''http://m/2.mp4'' ''alice_2_42.mp4'' b])"
    using ev[unfolded tail] len2 d0 d1 by blast
  then show ?thesis using u m by (intro conjI)
qed

subsection \<open>The \<^verbatim>\<open>local_file\<close> entries \<^verbatim>\<open>get_user_posts\<close> returns\<close>




subsection \<open>\<^verbatim>\<open>get_followers\<close> and \<^verbatim>\<open>get_following\<close>\<close>
















subsection \<open>\<^verbatim>\<open>generate_csv_reports\<close>\<close>

lemma csv_path_inj: "csv_path self username c = csv_path self username c' \<Longrightarrow> c = c'"
  by (simp add: csv_path_def)

lemma csv_path_not_json: "csv_path self username c \<noteq> json_path self username'"
  by (simp add: csv_path_def json_path_def)

lemma csv_step_skip:
  assumes "\<not> (\<exists>v. map_of data c = Some v \<and> truthy_val v)"
  shows "csv_step P self username data c w = (Inr (), [], w)"
  using assms by (auto simp: csv_step_def split: option.splits)

lemma csv_step_run:
  assumes "map_of data c = Some v" "truthy_val v"
  shows "csv_step P self username data c w
           = (fst (to_csv P (csv_path self username c) v w),
              [EvToCsv (csv_path self username c) v (succeeded (fst (to_csv P (csv_path self username c) v w)))],
              snd (to_csv P (csv_path self username c) v w))"
  using assms by (simp add: csv_step_def ext_call_def split: prod.splits)

lemma csv_step_events:
  assumes "csv_step P self username data c w = (r, evs, w')"
  shows "\<forall>ev\<in>set evs. \<exists>v b. ev = EvToCsv (csv_path self username c) v b
            \<and> map_of data c = Some v \<and> truthy_val v"
proof (cases "\<exists>v. map_of data c = Some v \<and> truthy_val v")
  case True
  then obtain v where v: "map_of data c = Some v" "truthy_val v" by blast
  show ?thesis using assms v unfolding csv_step_run[OF v] by auto
next
  case False
  show ?thesis using assms unfolding csv_step_skip[OF False] by auto
qed

lemma generate_csv_reports_body_events:
  assumes "generate_csv_reports_body P self username data w = (r, evs, w')"
  shows "\<forall>ev\<in>set evs.
        (\<exists>lvl msg. ev = EvLog lvl msg)
        \<or> (\<exists>c v b. c \<in> set [''posts'', ''followers'', ''following'']
              \<and> ev = EvToCsv (csv_path self username c) v b
              \<and> map_of data c = Some v \<and> truthy_val v)"
proof -
  obtain r1 e1 w1 where s1: "csv_step P self username data ''posts'' w = (r1, e1, w1)"
    by (cases "csv_step P self username data ''posts'' w") auto
  obtain r2 e2 w2 where s2: "csv_step P self username data ''followers'' w1 = (r2, e2, w2)"
    by (cases "csv_step P self username data ''followers'' w1") auto
  obtain r3 e3 w3 where s3: "csv_step P self username data ''following'' w2 = (r3, e3, w3)"
    by (cases "csv_step P self username data ''following'' w2") auto
  note ev1 = csv_step_events[OF s1]
  note ev2 = csv_step_events[OF s2]
  note ev3 = csv_step_events[OF s3]
  have sub: "set evs \<subseteq> set e1 \<union> set e2 \<union> set e3
               \<union> {EvLog Info (''CSV reports generated for '' @ username)}"
    using assms s1 s2 s3
    by (cases r1; cases r2; cases r3)
       (auto simp: generate_csv_reports_body_def io_bind_def)
  show ?thesis
  proof
    fix ev assume "ev \<in> set evs"
    with sub have "ev \<in> set e1 \<or> ev \<in> set e2 \<or> ev \<in> set e3
        \<or> ev = EvLog Info (''CSV reports generated for '' @ username)" by auto
    then show "(\<exists>lvl msg. ev = EvLog lvl msg)
        \<or> (\<exists>c v b. c \<in> set [''posts'', ''followers'', ''following'']
              \<and> ev = EvToCsv (csv_path self username c) v b
              \<and> map_of data c = Some v \<and> truthy_val v)"
    proof (elim disjE)
      assume "ev \<in> set e1"
      with ev1 obtain v b where "ev = EvToCsv (csv_path self username ''posts'') v b"
        "map_of data ''posts'' = Some v" "truthy_val v" by blast
      then have "\<exists>c v b. c \<in> set [''posts'', ''followers'', ''following'']
              \<and> ev = EvToCsv (csv_path self username c) v b
              \<and> map_of data c = Some v \<and> truthy_val v"
        by (intro exI[of _ "''posts''"] exI[of _ v] exI[of _ b]) simp
      then show ?thesis ..
    next
      assume "ev \<in> set e2"
      with ev2 obtain v b where "ev = EvToCsv (csv_path self username ''followers'') v b"
        "map_of data ''followers'' = Some v" "truthy_val v" by blast
      then have "\<exists>c v b. c \<in> set [''posts'', ''followers'', ''following'']
              \<and> ev = EvToCsv (csv_path self username c) v b
              \<and> map_of data c = Some v \<and> truthy_val v"
        by (intro exI[of _ "''followers''"] exI[of _ v] exI[of _ b]) simp
      then show ?thesis ..
    next
      assume "ev \<in> set e3"
      with ev3 obtain v b where "ev = EvToCsv (csv_path self username ''following'') v b"
        "map_of data ''following'' = Some v" "truthy_val v" by blast
      then have "\<exists>c v b. c \<in> set [''posts'', ''followers'', ''following'']
              \<and> ev = EvToCsv (csv_path self username c) v b
              \<and> map_of data c = Some v \<and> truthy_val v"
        by (intro exI[of _ "''following''"] exI[of _ v] exI[of _ b]) simp
      then show ?thesis ..
    next
      assume "ev = EvLog Info (''CSV reports generated for '' @ username)"
      then have "\<exists>lvl msg. ev = EvLog lvl msg" by blast
      then show ?thesis ..
    qed
  qed
qed

lemma generate_csv_reports_run:
  "generate_csv_reports P self username data w
     = (case generate_csv_reports_body P self username data w of
          (Inl e, evs, w1) \<Rightarrow>
            (Inr (), EvEnter ''generate_csv_reports'' [username] # evs
               @ [EvLog Error (''Failed to generate CSV reports: '' @ exn_str e)], w1)
        | (Inr u, evs, w1) \<Rightarrow> (Inr (), EvEnter ''generate_csv_reports'' [username] # evs, w1))"
  by (simp add: generate_csv_reports_def io_try_def io_bind_def split: prod.splits sum.splits)

lemma generate_csv_reports_posts_first:
  assumes "map_of data ''posts'' = Some v" "truthy_val v"
  shows "\<exists>b rest. events_of (generate_csv_reports P self username data w)
           = EvEnter ''generate_csv_reports'' [username]
             # EvToCsv (csv_path self username ''posts'') v b # rest"
proof -
  obtain rb evs wb where b: "generate_csv_reports_body P self username data w = (rb, evs, wb)"
    by (cases "generate_csv_reports_body P self username data w") auto
  have "\<exists>b rest. evs = EvToCsv (csv_path self username ''posts'') v b # rest"
    using b unfolding generate_csv_reports_body_def
    by (elim io_bindE) (auto simp: csv_step_run[OF assms])
  then obtain b0 rest where "evs = EvToCsv (csv_path self username ''posts'') v b0 # rest" by blast
  then show ?thesis unfolding generate_csv_reports_run b
    by (cases rb) (auto simp: events_of_def)
qed

text \<open>
  C6. \<^verbatim>\<open>generate_csv_reports\<close> is skip-safe. It returns and never raises, whatever the
  platform does (the exceptions are those deriving from \<^verbatim>\<open>Exception\<close>). Everything it
  does to the outside is a log record or a \<^verbatim>\<open>to_csv\<close> call for one of the categories
  \<^verbatim>\<open>posts\<close>, \<^verbatim>\<open>followers\<close>, \<^verbatim>\<open>following\<close>, on that category's path, with the value the
  data has there, which then is non-empty. So for a category whose value is missing or
  empty, in particular the empty sequence, no CSV file is written. It makes no
  \<^verbatim>\<open>json.dump\<close> call, and no path it writes is the path of a JSON document: a failure
  in it leaves the persisted document as it was. A non-empty \<^verbatim>\<open>posts\<close> sequence is
  written first.
\<close>

theorem generate_csv_reports_skip_safe:
  "(\<exists>u. result_of (generate_csv_reports P self username data w) = Inr u)
   \<and> (\<forall>ev\<in>set (events_of (generate_csv_reports P self username data w)).
        ev = EvEnter ''generate_csv_reports'' [username]
        \<or> (\<exists>lvl msg. ev = EvLog lvl msg)
        \<or> (\<exists>c v b. c \<in> set [''posts'', ''followers'', ''following'']
              \<and> ev = EvToCsv (csv_path self username c) v b
              \<and> map_of data c = Some v \<and> truthy_val v))
   \<and> (\<forall>c. \<not> (\<exists>v. map_of data c = Some v \<and> truthy_val v) \<longrightarrow>
          (\<forall>v b. EvToCsv (csv_path self username c) v b
                    \<notin> set (events_of (generate_csv_reports P self username data w))))
   \<and> (\<forall>c. map_of data c = Some (PList []) \<longrightarrow>
          (\<forall>v b. EvToCsv (csv_path self username c) v b
                    \<notin> set (events_of (generate_csv_reports P self username data w))))
   \<and> (\<forall>p d b. EvJsonDump p d b \<notin> set (events_of (generate_csv_reports P self username data w)))
   \<and> (\<forall>p v b username'. EvToCsv p v b \<in> set (events_of (generate_csv_reports P self username data w))
          \<longrightarrow> p \<noteq> json_path self username')
   \<and> (\<forall>v. map_of data ''posts'' = Some v \<and> truthy_val v \<longrightarrow>
          (\<exists>b rest. events_of (generate_csv_reports P self username data w)
             = EvEnter ''generate_csv_reports'' [username]
               # EvToCsv (csv_path self username ''posts'') v b # rest))"
proof -
  let ?evs = "events_of (generate_csv_reports P self username data w)"
  obtain rb evs wb where b: "generate_csv_reports_body P self username data w = (rb, evs, wb)"
    by (cases "generate_csv_reports_body P self username data w") auto
  note be = generate_csv_reports_body_events[OF b]
  have A: "\<exists>u. result_of (generate_csv_reports P self username data w) = Inr u"
    unfolding generate_csv_reports_run b by (cases rb) (simp_all add: result_of_def)
  have sub: "set ?evs \<subseteq> {EvEnter ''generate_csv_reports'' [username]} \<union> set evs
                \<union> {ev. \<exists>lvl msg. ev = EvLog lvl msg}"
    unfolding generate_csv_reports_run b by (cases rb) (auto simp: events_of_def)
  have B: "\<forall>ev\<in>set ?evs.
        ev = EvEnter ''generate_csv_reports'' [username]
        \<or> (\<exists>lvl msg. ev = EvLog lvl msg)
        \<or> (\<exists>c v b. c \<in> set [''posts'', ''followers'', ''following'']
              \<and> ev = EvToCsv (csv_path self username c) v b
              \<and> map_of data c = Some v \<and> truthy_val v)"
  proof
    fix ev assume "ev \<in> set ?evs"
    with sub have "ev = EvEnter ''generate_csv_reports'' [username] \<or> ev \<in> set evs
        \<or> (\<exists>lvl msg. ev = EvLog lvl msg)" by auto
    then show "ev = EvEnter ''generate_csv_reports'' [username]
        \<or> (\<exists>lvl msg. ev = EvLog lvl msg)
        \<or> (\<exists>c v b. c \<in> set [''posts'', ''followers'', ''following'']
              \<and> ev = EvToCsv (csv_path self username c) v b
              \<and> map_of data c = Some v \<and> truthy_val v)"
      using be by blast
  qed
  have csv: "\<And>p v b. EvToCsv p v b \<in> set ?evs \<Longrightarrow>
       \<exists>c. c \<in> set [''posts'', ''followers'', ''following''] \<and> p = csv_path self username c
            \<and> map_of data c = Some v \<and> truthy_val v"
  proof -
    fix p v b assume "EvToCsv p v b \<in> set ?evs"
    from B[rule_format, OF this] show "\<exists>c. c \<in> set [''posts'', ''followers'', ''following'']
            \<and> p = csv_path self username c \<and> map_of data c = Some v \<and> truthy_val v"
      by auto
  qed
  have C: "\<forall>c. \<not> (\<exists>v. map_of data c = Some v \<and> truthy_val v) \<longrightarrow>
          (\<forall>v b. EvToCsv (csv_path self username c) v b \<notin> set ?evs)"
  proof (intro allI impI notI)
    fix c v b
    assume n: "\<not> (\<exists>v. map_of data c = Some v \<and> truthy_val v)"
      and m: "EvToCsv (csv_path self username c) v b \<in> set ?evs"
    from csv[OF m] obtain c' where "csv_path self username c = csv_path self username c'"
      "map_of data c' = Some v" "truthy_val v" by blast
    with csv_path_inj[of self username c c'] have "map_of data c = Some v \<and> truthy_val v" by simp
    with n show False by blast
  qed
  have D: "\<forall>c. map_of data c = Some (PList []) \<longrightarrow>
          (\<forall>v b. EvToCsv (csv_path self username c) v b \<notin> set ?evs)"
  proof (intro allI impI)
    fix c v b assume "map_of data c = Some (PList [])"
    then have "\<not> (\<exists>v. map_of data c = Some v \<and> truthy_val v)" by simp
    with C show "EvToCsv (csv_path self username c) v b \<notin> set ?evs" by blast
  qed
  have E: "\<forall>p d b. EvJsonDump p d b \<notin> set ?evs"
  proof (intro allI notI)
    fix p d b assume "EvJsonDump p d b \<in> set ?evs"
    from B[rule_format, OF this] show False by auto
  qed
  have F: "\<forall>p v b username'. EvToCsv p v b \<in> set ?evs \<longrightarrow> p \<noteq> json_path self username'"
  proof (intro allI impI)
    fix p v b username' assume "EvToCsv p v b \<in> set ?evs"
    from csv[OF this] obtain c where "p = csv_path self username c" by blast
    then show "p \<noteq> json_path self username'" using csv_path_not_json by simp
  qed
  have G: "\<forall>v. map_of data ''posts'' = Some v \<and> truthy_val v \<longrightarrow>
          (\<exists>b rest. ?evs = EvEnter ''generate_csv_reports'' [username]
               # EvToCsv (csv_path self username ''posts'') v b # rest)"
  proof (intro allI impI, elim conjE)
    fix v assume "map_of data ''posts'' = Some v" "truthy_val v"
    then show "\<exists>b rest. ?evs = EvEnter ''generate_csv_reports'' [username]
               # EvToCsv (csv_path self username ''posts'') v b # rest"
      by (rule generate_csv_reports_posts_first)
  qed
  show ?thesis by (rule conjI[OF A conjI[OF B conjI[OF C conjI[OF D conjI[OF E conjI[OF F G]]]]]])
qed

theorem generate_csv_reports_skip_safe_witness:
  "result_of (generate_csv_reports demo_platform_disk_full demo_self ''alice'' demo_data 0) = Inr ()
   \<and> EvLog Error ''Failed to generate CSV reports: No space left on device''
        \<in> set (events_of (generate_csv_reports demo_platform_disk_full demo_self ''alice'' demo_data 0))
   \<and> map_of demo_data ''followers'' = Some (PList [])
   \<and> (\<forall>v b. EvToCsv (csv_path demo_self ''alice'' ''followers'') v b
         \<notin> set (events_of (generate_csv_reports demo_platform demo_self ''alice'' demo_data 0)))
   \<and> EvToCsv (csv_path demo_self ''alice'' ''following'')
         (PList [PDict [(''pk'', Atom (AStr ''7'')), (''username'', Atom (AStr ''bob''))]]) True
        \<in> set (events_of (generate_csv_reports demo_platform demo_self ''alice'' demo_data 0))
   \<and> csv_path demo_self ''alice'' ''following'' \<noteq> json_path demo_self ''alice''
   \<and> map_of demo_data ''posts'' = Some (PList [PDict [(''id'', Atom (AStr ''1_42'')), (''code'', Atom (AStr ''abc''))]])
   \<and> (\<exists>b rest. events_of (generate_csv_reports demo_platform demo_self ''alice'' demo_data 0)
         = EvEnter ''generate_csv_reports'' [''alice'']
           # EvToCsv (csv_path demo_self ''alice'' ''posts'')
               (PList [PDict [(''id'', Atom (AStr ''1_42'')), (''code'', Atom (AStr ''abc''))]]) b # rest)"
proof -
  note T1 = generate_csv_reports_skip_safe[of demo_platform_disk_full demo_self "''alice''" demo_data 0]
  note T2 = generate_csv_reports_skip_safe[of demo_platform demo_self "''alice''" demo_data 0]
  from T1[THEN conjunct1]
  have A: "result_of (generate_csv_reports demo_platform_disk_full demo_self ''alice'' demo_data 0) = Inr ()"
    by simp
  have B: "EvLog Error ''Failed to generate CSV reports: No space left on device''
        \<in> set (events_of (generate_csv_reports demo_platform_disk_full demo_self ''alice'' demo_data 0))"
    by code_simp
  have f: "map_of demo_data ''followers'' = Some (PList [])" by code_simp
  have C: "\<forall>v b. EvToCsv (csv_path demo_self ''alice'' ''followers'') v b
         \<notin> set (events_of (generate_csv_reports demo_platform demo_self ''alice'' demo_data 0))"
    using T2[THEN conjunct2, THEN conjunct2, THEN conjunct2, THEN conjunct1, THEN spec, THEN mp, OF f] .
  have g: "EvToCsv (csv_path demo_self ''alice'' ''following'')
         (PList [PDict [(''pk'', Atom (AStr ''7'')), (''username'', Atom (AStr ''bob''))]]) True
        \<in> set (events_of (generate_csv_reports demo_platform demo_self ''alice'' demo_data 0))"
    by code_simp
  have D: "csv_path demo_self ''alice'' ''following'' \<noteq> json_path demo_self ''alice''"
    using T2[THEN conjunct2, THEN conjunct2, THEN conjunct2, THEN conjunct2, THEN conjunct2, THEN conjunct1,
        THEN spec, THEN spec, THEN spec, THEN spec, THEN mp, OF g] .
  have p: "map_of demo_data ''posts''
            = Some (PList [PDict [(''id'', Atom (AStr ''1_42'')), (''code'', Atom (AStr ''abc''))]])"
    by code_simp
  have tr: "truthy_val (PList [PDict [(''id'', Atom (AStr ''1_42'')), (''code'', Atom (AStr ''abc''))]])"
    by simp
  have E: "\<exists>b rest. events_of (generate_csv_reports demo_platform demo_self ''alice'' demo_data 0)
         = EvEnter ''generate_csv_reports'' [''alice'']
           # EvToCsv (csv_path demo_self ''alice'' ''posts'')
               (PList [PDict [(''id'', Atom (AStr ''1_42'')), (''code'', Atom (AStr ''abc''))]]) b # rest"
    using T2[THEN conjunct2, THEN conjunct2, THEN conjunct2, THEN conjunct2, THEN conjunct2, THEN conjunct2,
        THEN spec, THEN mp, OF conjI[OF p tr]] .
  show ?thesis by (intro conjI A B f C g D p E)
qed

subsection \<open>Where \<^verbatim>\<open>json.dump\<close> is called\<close>



























subsection \<open>The fields of the entities\<close>














subsection \<open>The persisted document\<close>















end
